theory Spec2Isabelle
  imports Complex_Main "HOL-Library.Char_ord" "HOL-Library.List_Lexorder"
begin

section \<open>Characters and strings\<close>

text \<open>
  A Python \<^verbatim>\<open>str\<close> is a sequence of code points. The model covers the texts whose
  code points are below 256 (ASCII and Latin-1): a \<^typ>\<open>char\<close> stands for the code
  point \<open>of_char c\<close>, a \<^typ>\<open>string\<close> for the text. The character classes below
  are the ones Python's \<^verbatim>\<open>re\<close> module and \<^verbatim>\<open>str\<close> methods use on that range.
\<close>

definition code_point :: "char \<Rightarrow> int" where
  "code_point c = of_char c"

definition in_range :: "int \<Rightarrow> int \<Rightarrow> char \<Rightarrow> bool" where
  "in_range lo hi c = (lo \<le> code_point c \<and> code_point c \<le> hi)"

text \<open>The regex class \<^verbatim>\<open>\s\<close> (and what \<^verbatim>\<open>str.strip()\<close> removes).\<close>

definition is_space :: "char \<Rightarrow> bool" where
  "is_space c = (in_range 9 13 c \<or> in_range 28 32 c \<or> code_point c = 133 \<or> code_point c = 160)"

text \<open>The regex class \<^verbatim>\<open>[A-Za-z]\<close>.\<close>

definition is_ascii_letter :: "char \<Rightarrow> bool" where
  "is_ascii_letter c = (in_range 65 90 c \<or> in_range 97 122 c)"

text \<open>The regex class \<^verbatim>\<open>\w\<close>: alphanumeric code points and the underscore.\<close>

definition is_word :: "char \<Rightarrow> bool" where
  "is_word c = (in_range 48 57 c \<or> is_ascii_letter c \<or> code_point c = 95 \<or>
     code_point c = 170 \<or> in_range 178 179 c \<or> code_point c = 181 \<or>
     in_range 185 186 c \<or> in_range 188 190 c \<or> in_range 192 214 c \<or>
     in_range 216 246 c \<or> in_range 248 255 c)"

text \<open>\<^verbatim>\<open>str.isdigit()\<close> on one character.\<close>

definition is_digit_char :: "char \<Rightarrow> bool" where
  "is_digit_char c = (in_range 48 57 c \<or> in_range 178 179 c \<or> code_point c = 185)"

text \<open>\<^verbatim>\<open>str.isdigit()\<close>: every character is a digit and there is at least one.\<close>

definition isdigit :: "string \<Rightarrow> bool" where
  "isdigit s = (s \<noteq> [] \<and> list_all is_digit_char s)"

text \<open>The upper-case letters of the range: the characters \<^verbatim>\<open>str.lower()\<close> changes.\<close>

definition is_upper :: "char \<Rightarrow> bool" where
  "is_upper c = (in_range 65 90 c \<or> in_range 192 214 c \<or> in_range 216 222 c)"

text \<open>\<^verbatim>\<open>str.lower()\<close>: an upper-case letter moves up by 32.\<close>

definition lower_char :: "char \<Rightarrow> char" where
  "lower_char c = (if is_upper c then char_of (code_point c + 32) else c)"

definition lower :: "string \<Rightarrow> string" where
  "lower s = map lower_char s"

section \<open>The text normalizer\<close>

text \<open>\<^verbatim>\<open>re.sub(r'[\n\t\r]', ' ', text)\<close>\<close>

definition sub_newlines :: "string \<Rightarrow> string" where
  "sub_newlines text =
     map (\<lambda>c. if code_point c = 10 \<or> code_point c = 9 \<or> code_point c = 13 then CHR '' '' else c) text"

text \<open>\<^verbatim>\<open>re.sub(r'\s+', ' ', text)\<close>: every maximal run of whitespace becomes one space.\<close>

function sub_spaces :: "string \<Rightarrow> string" where
  "sub_spaces [] = []"
| "sub_spaces (c # cs) =
     (if is_space c then CHR '' '' # sub_spaces (dropWhile is_space cs)
      else c # sub_spaces cs)"
  by pat_completeness auto
termination
  by (relation "measure length") (auto simp: less_Suc_eq_le length_dropWhile_le)

text \<open>\<^verbatim>\<open>re.sub(r'[^\w\s\.\-]', ' ', text)\<close>\<close>

definition sub_punct :: "string \<Rightarrow> string" where
  "sub_punct text =
     map (\<lambda>c. if is_word c \<or> is_space c \<or> c = CHR ''.'' \<or> c = CHR ''-'' then c else CHR '' '') text"

text \<open>\<^verbatim>\<open>text.strip()\<close>\<close>

definition strip :: "string \<Rightarrow> string" where
  "strip text = rev (dropWhile is_space (rev (dropWhile is_space text)))"

text \<open>
  \<^verbatim>\<open>preprocess_text\<close>. A falsy argument (\<^verbatim>\<open>None\<close> or the empty string) gives the
  empty string; both are the empty list here.
\<close>

definition preprocess_text :: "string \<Rightarrow> string" where
  "preprocess_text text =
     (if text = [] then []
      else strip (sub_punct (sub_spaces (sub_newlines text))))"

section \<open>Regular-expression matching\<close>

text \<open>
  The assertion \<^verbatim>\<open>\b\<close> at position \<open>i\<close> of \<open>s\<close>: exactly one of the character before
  the position and the character at it is a word character; a missing character (before
  the start, after the end) counts as a non-word character.
\<close>

definition at_boundary :: "string \<Rightarrow> nat \<Rightarrow> bool" where
  "at_boundary s i =
     ((0 < i \<and> i \<le> length s \<and> is_word (s ! (i - 1))) \<noteq> (i < length s \<and> is_word (s ! i)))"

text \<open>
  The pattern \<^verbatim>\<open>r'\b' + re.escape(skill) + r'\b'\<close> matched at position \<open>i\<close>:
  \<^verbatim>\<open>re.escape\<close> makes the skill a literal, so the match is the skill itself, between two
  word boundaries.
\<close>

definition matches_at :: "string \<Rightarrow> string \<Rightarrow> nat \<Rightarrow> bool" where
  "matches_at skill s i =
     (at_boundary s i \<and> take (length skill) (drop i s) = skill \<and>
      at_boundary s (i + length skill))"

text \<open>\<^verbatim>\<open>re.search(pattern, s)\<close> for that pattern: a match at some position.\<close>

definition re_search_skill :: "string \<Rightarrow> string \<Rightarrow> bool" where
  "re_search_skill skill s = list_ex (matches_at skill s) [0..<Suc (length s)]"

text \<open>The character class \<^verbatim>\<open>[\w\+\#\.\-]\<close> of the technical-token pattern.\<close>

definition tech_char :: "char \<Rightarrow> bool" where
  "tech_char c =
     (is_word c \<or> c = CHR ''+'' \<or> c = CHR ''#'' \<or> c = CHR ''.'' \<or> c = CHR ''-'')"

text \<open>
  The pattern \<^verbatim>\<open>r'\b[A-Za-z][\w\+\#\.\-]{2,}\b'\<close> tried at position \<open>i\<close>; the result is
  the end of the match. The repetition is greedy: it takes the whole run of class
  characters and gives them back one at a time, down to two, until the closing
  \<^verbatim>\<open>\b\<close> holds.
\<close>

definition tech_match_at :: "string \<Rightarrow> nat \<Rightarrow> nat option" where
  "tech_match_at s i =
     (if at_boundary s i \<and> i < length s \<and> is_ascii_letter (s ! i) then
        let run = length (takeWhile tech_char (drop (Suc i) s))
        in find (at_boundary s) (rev [i + 3..<i + run + 2])
      else None)"

lemma find_Some_member: "find P xs = Some x \<Longrightarrow> x \<in> set xs \<and> P x"
  by (induction xs) (auto split: if_splits)

lemma find_rev_upt:
  assumes "find P (rev [a..<b]) = Some e"
  shows "a \<le> e \<and> e < b \<and> P e"
proof -
  from assms have "e \<in> set (rev [a..<b]) \<and> P e"
    by (rule find_Some_member)
  then show ?thesis by simp
qed

lemma tech_match_at_bounds:
  assumes "tech_match_at s i = Some e"
  shows "i + 3 \<le> e" and "e \<le> length s" and "at_boundary s i" and "at_boundary s e"
proof -
  let ?run = "length (takeWhile tech_char (drop (Suc i) s))"
  from assms have guard: "at_boundary s i" "i < length s"
    and all: "at_boundary s i \<and> i < length s \<and> is_ascii_letter (s ! i)"
    by (auto simp: tech_match_at_def split: if_splits)
  from assms all have "find (at_boundary s) (rev [i + 3..<i + ?run + 2]) = Some e"
    unfolding tech_match_at_def Let_def by (simp only: simp_thms if_True)
  then have e: "i + 3 \<le> e \<and> e < i + ?run + 2 \<and> at_boundary s e"
    by (rule find_rev_upt)
  have "?run \<le> length (drop (Suc i) s)"
    by (rule length_takeWhile_le)
  then have "?run \<le> length s - Suc i" by simp
  with guard e show "e \<le> length s" by linarith
  from e show "i + 3 \<le> e" by simp
  show "at_boundary s i" by (rule guard)
  from e show "at_boundary s e" by simp
qed

text \<open>
  \<^verbatim>\<open>re.findall(tech_pattern, s)\<close>, scanning from position \<open>i\<close>: the matches from left
  to right, none overlapping another; after a match the scan goes on at its end.
\<close>

function findall_tech :: "string \<Rightarrow> nat \<Rightarrow> string list" where
  "findall_tech s i =
     (if length s \<le> i then []
      else (case tech_match_at s i of
              Some e \<Rightarrow> take (e - i) (drop i s) # findall_tech s e
            | None \<Rightarrow> findall_tech s (Suc i)))"
  by pat_completeness auto
termination
proof (relation "measure (\<lambda>(s, i). length s - i)")
  show "wf (measure (\<lambda>(s, i). length s - i))" by simp
next
  fix s :: string and i :: nat
  assume "\<not> length s \<le> i"
  then show "((s, Suc i), (s, i)) \<in> measure (\<lambda>(s, i). length s - i)" by simp
next
  fix s :: string and i e :: nat
  assume "\<not> length s \<le> i" and "tech_match_at s i = Some e"
  then show "((s, e), (s, i)) \<in> measure (\<lambda>(s, i). length s - i)"
    using tech_match_at_bounds(1) [of s i e] by simp
qed

declare findall_tech.simps [simp del]

section \<open>The skill dictionary\<close>

definition COMMON_SKILLS :: "(string \<times> string list) list" where
  "COMMON_SKILLS =
    [(''programming'', [''python'', ''java'', ''javascript'', ''c++'', ''ruby'', ''php'',
        ''swift'', ''typescript'', ''kotlin'', ''golang'', ''rust'']),
     (''web_dev'', [''html'', ''css'', ''react'', ''angular'', ''vue'', ''node.js'', ''django'',
        ''flask'', ''express'', ''bootstrap'', ''jquery'']),
     (''databases'', [''sql'', ''mongodb'', ''postgresql'', ''mysql'', ''oracle'', ''redis'',
        ''elasticsearch'', ''dynamodb'', ''firebase'']),
     (''devops'', [''aws'', ''azure'', ''gcp'', ''docker'', ''kubernetes'', ''jenkins'',
        ''terraform'', ''git'', ''ci/cd'', ''github actions'']),
     (''data_science'', [''machine learning'', ''data analysis'', ''pandas'', ''numpy'',
        ''scikit-learn'', ''tensorflow'', ''pytorch'', ''r'', ''tableau'', ''power bi'']),
     (''soft_skills'', [''teamwork'', ''leadership'', ''communication'', ''problem solving'',
        ''critical thinking'', ''time management''])]"

definition ALL_SKILLS :: "string list" where
  "ALL_SKILLS = concat (map snd COMMON_SKILLS)"

section \<open>The skill extractor\<close>

definition stopwords :: "string list" where
  "stopwords = [''the'', ''and'', ''for'', ''with'', ''that'', ''have'', ''this'']"

text \<open>The first loop of \<^verbatim>\<open>extract_skills\<close>: the dictionary terms found in the text.\<close>

definition dictionary_skills :: "string \<Rightarrow> string set" where
  "dictionary_skills text_lower =
     fold (\<lambda>skill extracted.
             if re_search_skill (lower skill) text_lower then insert skill extracted
             else extracted)
       ALL_SKILLS {}"

text \<open>The second loop: the technical tokens, added to the set the first loop built.\<close>

definition add_tech_skills :: "string \<Rightarrow> string set \<Rightarrow> string set" where
  "add_tech_skills text extracted_skills =
     fold (\<lambda>m extracted.
             if 2 < length m \<and> lower m \<notin> set stopwords \<and> \<not> isdigit m
             then insert (lower m) extracted else extracted)
       (findall_tech text 0) extracted_skills"

text \<open>
  \<^verbatim>\<open>ResumeParser(text).extract_skills()\<close>: the constructor normalizes the text, the
  method returns the sorted list of the set (strings compare by code point,
  lexicographically).
\<close>

definition extract_skills :: "string \<Rightarrow> string list" where
  "extract_skills raw_text =
     (let text = preprocess_text raw_text in
      if text = [] then []
      else sorted_list_of_set (add_tech_skills text (dictionary_skills (lower text))))"

section \<open>Floating-point numbers\<close>

text \<open>
  A Python \<^verbatim>\<open>float\<close> is an IEEE 754 binary64 number: a finite value (a rational; the two
  zeros are one value here, as they are for \<^verbatim>\<open>==\<close>), an infinity or a NaN.
\<close>

datatype double = Finite rat | PosInf | NegInf | NaN

text \<open>The integer nearest to \<open>x\<close>, the even one of two equally near.\<close>

definition round_half_even :: "rat \<Rightarrow> int" where
  "round_half_even x =
     (let f = \<lfloor>x\<rfloor>; d = x - of_int f in
      if d < 1 / 2 then f else if 1 / 2 < d then f + 1 else if even f then f else f + 1)"

text \<open>The binary exponent of a positive rational: \<open>2 ^ e \<le> a < 2 ^ (e + 1)\<close>.\<close>

function exp_up :: "rat \<Rightarrow> int" where
  "exp_up a = (if 2 \<le> a then exp_up (a / 2) + 1 else 0)"
  by pat_completeness auto
termination
proof (relation "measure (\<lambda>a. nat \<lfloor>a\<rfloor>)")
  show "wf (measure (\<lambda>a::rat. nat \<lfloor>a\<rfloor>))" by simp
next
  fix a :: rat
  assume a: "2 \<le> a"
  then have "a / 2 \<le> a - 1" by simp
  then have "\<lfloor>a / 2\<rfloor> \<le> \<lfloor>a - 1\<rfloor>" by (rule floor_mono)
  moreover from a have "2 \<le> \<lfloor>a\<rfloor>" by (simp add: le_floor_iff)
  ultimately show "(a / 2, a) \<in> measure (\<lambda>a. nat \<lfloor>a\<rfloor>)" by simp
qed

function exp_down :: "rat \<Rightarrow> int" where
  "exp_down a = (if 0 < a \<and> a < 1 then exp_down (a * 2) - 1 else 0)"
  by pat_completeness auto
termination
proof (relation "measure (\<lambda>a. nat \<lceil>1 / a\<rceil>)")
  show "wf (measure (\<lambda>a::rat. nat \<lceil>1 / a\<rceil>))" by simp
next
  fix a :: rat
  assume a: "0 < a \<and> a < 1"
  then have "1 < 1 / a" by simp
  then have "1 < \<lceil>1 / a\<rceil>" by (simp only: less_ceiling_iff of_int_1)
  then have two: "2 \<le> \<lceil>1 / a\<rceil>" by linarith
  have "1 / a \<le> of_int \<lceil>1 / a\<rceil>" by (rule le_of_int_ceiling)
  then have "1 / (a * 2) \<le> of_int \<lceil>1 / a\<rceil> / 2" by simp
  also from two have "(of_int \<lceil>1 / a\<rceil> / 2 :: rat) \<le> of_int (\<lceil>1 / a\<rceil> - 1)" by simp
  finally have "\<lceil>1 / (a * 2)\<rceil> \<le> \<lceil>1 / a\<rceil> - 1" by (simp only: ceiling_le_iff)
  with two have "nat \<lceil>1 / (a * 2)\<rceil> < nat \<lceil>1 / a\<rceil>" by linarith
  then show "(a * 2, a) \<in> measure (\<lambda>a. nat \<lceil>1 / a\<rceil>)" by (simp only: in_measure)
qed

declare exp_up.simps [simp del] exp_down.simps [simp del]

definition exponent :: "rat \<Rightarrow> int" where
  "exponent a = (if 1 \<le> a then exp_up a else exp_down a)"

text \<open>
  The power \<open>2 ^ k\<close> for an integer \<open>k\<close>, and the double nearest to a rational, the one with the even significand of two equally
  near (the rounding of every arithmetic operation): 53 significant bits, the smallest
  step \<open>2 ^ -1074\<close>, and an infinity when the rounded value reaches \<open>2 ^ 1024\<close>.
\<close>

definition pow2 :: "int \<Rightarrow> rat" where
  "pow2 k = (if 0 \<le> k then of_int (2 ^ nat k) else 1 / of_int (2 ^ nat (- k)))"

definition round_double :: "rat \<Rightarrow> double" where
  "round_double q =
     (if q = 0 then Finite 0
      else
        let a = \<bar>q\<bar>;
            p = max (exponent a - 52) (- 1074);
            r = of_int (round_half_even (a / pow2 p)) * pow2 p
        in if 1024 \<le> exponent r then (if 0 < q then PosInf else NegInf)
           else Finite (if 0 < q then r else - r))"

text \<open>\<^verbatim>\<open>x * y\<close> on floats.\<close>

fun fmul :: "double \<Rightarrow> double \<Rightarrow> double" where
  "fmul (Finite a) (Finite b) = round_double (a * b)"
| "fmul NaN y = NaN"
| "fmul x NaN = NaN"
| "fmul (Finite a) PosInf = (if a = 0 then NaN else if 0 < a then PosInf else NegInf)"
| "fmul (Finite a) NegInf = (if a = 0 then NaN else if 0 < a then NegInf else PosInf)"
| "fmul PosInf (Finite b) = (if b = 0 then NaN else if 0 < b then PosInf else NegInf)"
| "fmul NegInf (Finite b) = (if b = 0 then NaN else if 0 < b then NegInf else PosInf)"
| "fmul PosInf PosInf = PosInf"
| "fmul PosInf NegInf = NegInf"
| "fmul NegInf PosInf = NegInf"
| "fmul NegInf NegInf = PosInf"

text \<open>\<^verbatim>\<open>x + y\<close> on floats.\<close>

fun fadd :: "double \<Rightarrow> double \<Rightarrow> double" where
  "fadd (Finite a) (Finite b) = round_double (a + b)"
| "fadd NaN y = NaN"
| "fadd x NaN = NaN"
| "fadd PosInf NegInf = NaN"
| "fadd NegInf PosInf = NaN"
| "fadd PosInf y = PosInf"
| "fadd NegInf y = NegInf"
| "fadd x PosInf = PosInf"
| "fadd x NegInf = NegInf"

text \<open>
  \<^verbatim>\<open>m / n\<close> on two lengths (\<^verbatim>\<open>int\<close> by \<^verbatim>\<open>int\<close>, \<open>n\<close> not zero): the double nearest to the
  quotient.
\<close>

definition int_true_div :: "nat \<Rightarrow> nat \<Rightarrow> double" where
  "int_true_div m n = round_double (of_nat m / of_nat n)"

text \<open>
  \<^verbatim>\<open>round(x, 2)\<close> on a Python \<^verbatim>\<open>float\<close>: the exact value of \<open>x\<close> is rounded to the nearest
  multiple of 1/100, a tie to the even one, and the result is the double nearest to
  that; an infinity and a NaN are returned as they are.
\<close>

fun py_round2 :: "double \<Rightarrow> double" where
  "py_round2 (Finite q) = round_double (of_int (round_half_even (q * 100)) / 100)"
| "py_round2 x = x"

text \<open>
  \<^verbatim>\<open>round(x, 2)\<close> on a \<^verbatim>\<open>numpy.float64\<close>: numpy multiplies by 100, rounds that double to an
  integer (a tie to the even one) and divides by 100, each step in doubles.
\<close>

definition np_round2 :: "double \<Rightarrow> double" where
  "np_round2 x =
     (case fmul x (Finite 100) of
        Finite y \<Rightarrow> round_double (of_int (round_half_even y) / 100)
      | z \<Rightarrow> z)"

text \<open>
  A number of the program is a Python \<^verbatim>\<open>float\<close> or a \<^verbatim>\<open>numpy.float64\<close> (what the
  similarity library hands back). Both are doubles with the same arithmetic; an
  operation with a \<^verbatim>\<open>numpy.float64\<close> operand gives a \<^verbatim>\<open>numpy.float64\<close>, and
  \<^verbatim>\<open>round\<close> is the one of the operand's type.
\<close>

datatype pynum = PyFloat double | NpFloat64 double

fun num_value :: "pynum \<Rightarrow> double" where
  "num_value (PyFloat x) = x"
| "num_value (NpFloat64 x) = x"

fun num_mul :: "pynum \<Rightarrow> pynum \<Rightarrow> pynum" where
  "num_mul (PyFloat x) (PyFloat y) = PyFloat (fmul x y)"
| "num_mul x y = NpFloat64 (fmul (num_value x) (num_value y))"

fun num_add :: "pynum \<Rightarrow> pynum \<Rightarrow> pynum" where
  "num_add (PyFloat x) (PyFloat y) = PyFloat (fadd x y)"
| "num_add x y = NpFloat64 (fadd (num_value x) (num_value y))"

fun num_round2 :: "pynum \<Rightarrow> pynum" where
  "num_round2 (PyFloat x) = PyFloat (py_round2 x)"
| "num_round2 (NpFloat64 x) = NpFloat64 (np_round2 x)"

section \<open>Scores\<close>

text \<open>
  \<^verbatim>\<open>score_resume_by_skills\<close>. The score is \<^verbatim>\<open>(len(matched) / len(set(...))) * 100\<close>: the
  lengths are divided first, the quotient is multiplied by 100, the product is rounded.
\<close>

definition score_resume_by_skills :: "string \<Rightarrow> string list \<Rightarrow> double \<times> string set" where
  "score_resume_by_skills resume_text job_skills =
     (if job_skills = [] then (Finite 0, {})
      else
        let job_skills_lower = map lower job_skills;
            resume_lower = lower (preprocess_text resume_text);
            matched_skills =
              fold (\<lambda>skill matched.
                      if re_search_skill skill resume_lower then insert skill matched
                      else matched)
                job_skills_lower {};
            score = fmul (int_true_div (card matched_skills) (card (set job_skills_lower)))
                      (Finite 100)
        in (py_round2 score, matched_skills))"

text \<open>
  The similarity of the two normalized texts is computed by a library
  (\<^verbatim>\<open>TfidfVectorizer\<close>, \<^verbatim>\<open>cosine_similarity\<close>) that is not part of the program: it is a
  parameter, which either raises an exception (\<^verbatim>\<open>ValueError\<close> for an empty vocabulary, or
  another subclass of \<^verbatim>\<open>Exception\<close>) or returns the cosine. The real library returns a
  \<^verbatim>\<open>numpy.float64\<close>; a stand-in that returns a Python \<^verbatim>\<open>float\<close> is a parameter as well.
\<close>

datatype py_exception = ValueError | OtherException

type_synonym tfidf_cosine = "string \<Rightarrow> string \<Rightarrow> py_exception + pynum"

text \<open>
  \<^verbatim>\<open>score_resume_by_text_similarity\<close>. The result is a sum so that an exception leaving
  the function would be a value \<open>Inl\<close>; the \<^verbatim>\<open>except Exception\<close> clause turns every
  exception of the library into the Python float 0.0, which the first branch returns too.
\<close>

definition score_resume_by_text_similarity ::
    "tfidf_cosine \<Rightarrow> string \<Rightarrow> string \<Rightarrow> py_exception + pynum" where
  "score_resume_by_text_similarity cosine resume_text job_description_text =
     (if resume_text = [] \<or> job_description_text = [] then Inr (PyFloat (Finite 0))
      else
        let processed_resume = preprocess_text resume_text;
            processed_job = preprocess_text job_description_text
        in (case cosine processed_resume processed_job of
              Inr similarity \<Rightarrow>
                Inr (num_round2 (num_mul similarity (PyFloat (Finite 100))))
            | Inl e \<Rightarrow> Inr (PyFloat (Finite 0))))"

text \<open>The dictionary \<^verbatim>\<open>calculate_final_resume_score\<close> returns, a field for each key.\<close>

record score_bundle =
  Skill_Match_Score :: pynum
  Text_Similarity_Score :: pynum
  Final_Resume_Score :: pynum
  Matched_Skills :: "string set"
  Job_Skills :: "string list"
  Resume_Skills :: "string list"

text \<open>\<^verbatim>\<open>calculate_final_resume_score\<close>; the two weights are Python floats.\<close>

definition calculate_final_resume_score ::
    "tfidf_cosine \<Rightarrow> string \<Rightarrow> string \<Rightarrow> double \<Rightarrow> double \<Rightarrow> py_exception + score_bundle" where
  "calculate_final_resume_score cosine resume_text job_description_text skill_weight text_weight =
     (if resume_text = [] \<or> job_description_text = [] then
        Inr \<lparr>Skill_Match_Score = PyFloat (Finite 0),
             Text_Similarity_Score = PyFloat (Finite 0),
             Final_Resume_Score = PyFloat (Finite 0),
             Matched_Skills = {}, Job_Skills = [], Resume_Skills = []\<rparr>
      else
        let job_skills = extract_skills job_description_text;
            resume_skills = extract_skills resume_text;
            (skill_score, matched_skills) = score_resume_by_skills resume_text job_skills
        in (case score_resume_by_text_similarity cosine resume_text job_description_text of
              Inl e \<Rightarrow> Inl e
            | Inr text_similarity_score \<Rightarrow>
                let final_score =
                      num_round2
                        (num_add (num_mul (PyFloat skill_score) (PyFloat skill_weight))
                           (num_mul text_similarity_score (PyFloat text_weight)))
                in Inr \<lparr>Skill_Match_Score = PyFloat skill_score,
                        Text_Similarity_Score = text_similarity_score,
                        Final_Resume_Score = final_score,
                        Matched_Skills = matched_skills,
                        Job_Skills = job_skills,
                        Resume_Skills = resume_skills\<rparr>))"

section \<open>Properties\<close>

subsection \<open>Characters\<close>

lemma code_point_bounds: "0 \<le> code_point c \<and> code_point c < 256"
proof -
  have e: "(of_char c :: int) mod 256 = of_char c" by simp
  have "0 \<le> (of_char c :: int) mod 256" by (rule pos_mod_sign) simp
  moreover have "(of_char c :: int) mod 256 < 256" by (rule pos_mod_bound) simp
  ultimately show ?thesis unfolding code_point_def e by (rule conjI)
qed

lemma code_point_char_of: "0 \<le> n \<Longrightarrow> n < 256 \<Longrightarrow> code_point (char_of n) = n"
  unfolding code_point_def by simp

lemma in_range_mono: "in_range a b c \<Longrightarrow> a' \<le> a \<Longrightarrow> b \<le> b' \<Longrightarrow> in_range a' b' c"
  unfolding in_range_def by linarith

lemma lower_char_shift:
  assumes "in_range a b c" and "is_upper c" and "0 \<le> a" and "b < 224"
  shows "in_range (a + 32) (b + 32) (lower_char c)"
proof -
  from assms(1,3,4) have "0 \<le> code_point c + 32" and "code_point c + 32 < 256"
    unfolding in_range_def by linarith+
  then have "code_point (char_of (code_point c + 32)) = code_point c + 32"
    by (rule code_point_char_of)
  moreover from assms(2) have "lower_char c = char_of (code_point c + 32)"
    by (simp add: lower_char_def)
  ultimately show ?thesis using assms(1) by (simp add: in_range_def)
qed

lemma lower_char_cases:
  obtains (same) "lower_char c = c" "\<not> is_upper c"
  | (ascii) "in_range 65 90 c" "in_range 97 122 (lower_char c)"
  | (latin1) "in_range 192 214 c" "in_range 224 246 (lower_char c)"
  | (latin2) "in_range 216 222 c" "in_range 248 254 (lower_char c)"
proof (cases "is_upper c")
  case False
  then have "lower_char c = c" by (simp add: lower_char_def)
  from this False show ?thesis by (rule same)
next
  case True
  then consider "in_range 65 90 c" | "in_range 192 214 c" | "in_range 216 222 c"
    unfolding is_upper_def by blast
  then show ?thesis
  proof cases
    case 1
    from lower_char_shift [OF 1 True] have "in_range 97 122 (lower_char c)" by simp
    with 1 show ?thesis by (rule ascii)
  next
    case 2
    from lower_char_shift [OF 2 True] have "in_range 224 246 (lower_char c)" by simp
    with 2 show ?thesis by (rule latin1)
  next
    case 3
    from lower_char_shift [OF 3 True] have "in_range 248 254 (lower_char c)" by simp
    with 3 show ?thesis by (rule latin2)
  qed
qed

lemma is_word_ranges:
  "in_range 65 90 c \<Longrightarrow> is_word c"
  "in_range 97 122 c \<Longrightarrow> is_word c"
  "in_range 192 214 c \<Longrightarrow> is_word c"
  "in_range 216 246 c \<Longrightarrow> is_word c"
  "in_range 248 255 c \<Longrightarrow> is_word c"
  unfolding is_word_def is_ascii_letter_def by blast+

lemma is_word_lower_char: "is_word (lower_char c) = is_word c"
proof (cases c rule: lower_char_cases)
  case same
  then show ?thesis by simp
next
  case ascii
  then show ?thesis by (simp add: is_word_ranges)
next
  case latin1
  from latin1(2) have "in_range 216 246 (lower_char c)" by (rule in_range_mono) simp_all
  with latin1(1) show ?thesis by (simp add: is_word_ranges)
next
  case latin2
  from latin2(2) have "in_range 248 255 (lower_char c)" by (rule in_range_mono) simp_all
  moreover from latin2(1) have "in_range 216 246 c" by (rule in_range_mono) simp_all
  ultimately show ?thesis by (simp add: is_word_ranges)
qed

lemma not_upper_ranges:
  assumes "in_range a b c" and "90 < a" and "b < 192 \<or> 222 < a"
  shows "\<not> is_upper c"
  using assms unfolding is_upper_def in_range_def by linarith

lemma lower_char_idem: "lower_char (lower_char c) = lower_char c"
proof -
  have "\<not> is_upper (lower_char c)"
  proof (cases c rule: lower_char_cases)
    case same
    then show ?thesis by simp
  next
    case ascii
    from ascii(2) show ?thesis by (rule not_upper_ranges) simp_all
  next
    case latin1
    from latin1(2) show ?thesis by (rule not_upper_ranges) simp_all
  next
    case latin2
    from latin2(2) show ?thesis by (rule not_upper_ranges) simp_all
  qed
  then show ?thesis by (simp add: lower_char_def [of "lower_char c"])
qed

lemma lower_char_nonword: "\<not> is_word (lower_char c) \<Longrightarrow> lower_char c = c"
proof (cases c rule: lower_char_cases)
  case same
  then show ?thesis by simp
next
  case ascii
  assume "\<not> is_word (lower_char c)"
  with ascii(2) show ?thesis by (simp add: is_word_ranges)
next
  case latin1
  assume n: "\<not> is_word (lower_char c)"
  from latin1(2) have "in_range 216 246 (lower_char c)" by (rule in_range_mono) simp_all
  with n show ?thesis by (simp add: is_word_ranges)
next
  case latin2
  assume n: "\<not> is_word (lower_char c)"
  from latin2(2) have "in_range 248 255 (lower_char c)" by (rule in_range_mono) simp_all
  with n show ?thesis by (simp add: is_word_ranges)
qed

subsection \<open>The text normalizer\<close>

lemma set_strip: "set (strip s) \<subseteq> set s"
proof -
  have "set (strip s) \<subseteq> set (dropWhile is_space s)"
    unfolding strip_def using set_dropWhileD [of _ is_space "rev (dropWhile is_space s)"]
    by auto
  also have "\<dots> \<subseteq> set s" using set_dropWhileD [of _ is_space s] by auto
  finally show ?thesis .
qed

lemma is_space_blank: "is_space CHR '' ''"
  by (simp add: is_space_def in_range_def code_point_def)

lemma preprocess_text_chars:
  assumes "c \<in> set (preprocess_text t)"
  shows "is_word c \<or> is_space c \<or> c = CHR ''.'' \<or> c = CHR ''-''"
proof -
  from assms have "c \<in> set (strip (sub_punct (sub_spaces (sub_newlines t))))"
    by (simp add: preprocess_text_def split: if_splits)
  with set_strip have "c \<in> set (sub_punct (sub_spaces (sub_newlines t)))" by blast
  then show ?thesis unfolding sub_punct_def using is_space_blank by auto
qed

lemma slash_plus_class:
  "\<not> is_word CHR ''/''" "\<not> is_space CHR ''/''" "\<not> is_word CHR ''+''" "\<not> is_space CHR ''+''"
  by (simp_all add: is_word_def is_space_def is_ascii_letter_def in_range_def code_point_def)

lemma preprocess_text_no_slash_plus:
  "CHR ''/'' \<notin> set (preprocess_text t)" "CHR ''+'' \<notin> set (preprocess_text t)"
  using preprocess_text_chars [of "CHR ''/''" t] preprocess_text_chars [of "CHR ''+''" t]
  by (auto simp: slash_plus_class)

text \<open>
  Claim C1 says that the normalizer is idempotent:
  \<open>preprocess_text (preprocess_text x) = preprocess_text x\<close> for every text \<open>x\<close>.
  The code collapses the whitespace runs before it replaces the punctuation by spaces, so
  a punctuation character next to a space leaves a run of two spaces, which only a
  second pass collapses. At the text \<^verbatim>\<open>"a, b"\<close> the first pass gives \<^verbatim>\<open>"a  b"\<close> (two
  spaces) and the second \<^verbatim>\<open>"a b"\<close>.
\<close>

theorem preprocess_text_not_idempotent:
  "preprocess_text ''a, b'' = ''a  b'' \<and>
   preprocess_text (preprocess_text ''a, b'') = ''a b'' \<and>
   preprocess_text (preprocess_text ''a, b'') \<noteq> preprocess_text ''a, b''"
  by code_simp

subsection \<open>Matching and extraction\<close>

lemma fold_insert_if:
  "fold (\<lambda>x acc. if P x then insert (f x) acc else acc) xs A = A \<union> f ` {x \<in> set xs. P x}"
  by (induction xs arbitrary: A) auto

lemma dictionary_skills_eq:
  "dictionary_skills text_lower =
     {skill \<in> set ALL_SKILLS. re_search_skill (lower skill) text_lower}"
  unfolding dictionary_skills_def by (simp add: fold_insert_if)

lemma add_tech_skills_eq:
  "add_tech_skills text extracted =
     extracted \<union> lower ` {m \<in> set (findall_tech text 0).
        2 < length m \<and> lower m \<notin> set stopwords \<and> \<not> isdigit m}"
  unfolding add_tech_skills_def by (rule fold_insert_if)

lemma set_extract_skills:
  "set (extract_skills raw_text) =
     (if preprocess_text raw_text = [] then {}
      else add_tech_skills (preprocess_text raw_text)
             (dictionary_skills (lower (preprocess_text raw_text))))"
proof -
  have "finite (add_tech_skills (preprocess_text raw_text)
             (dictionary_skills (lower (preprocess_text raw_text))))"
    by (simp add: add_tech_skills_eq dictionary_skills_eq)
  then show ?thesis by (simp add: extract_skills_def Let_def)
qed

lemma re_search_skill_iff:
  "re_search_skill skill s \<longleftrightarrow> (\<exists>i\<le>length s. matches_at skill s i)"
proof -
  have "\<And>i. i \<in> set [0..<Suc (length s)] \<longleftrightarrow> i \<le> length s"
    by (simp only: set_upt atLeastLessThan_iff less_Suc_eq_le) simp
  then show ?thesis unfolding re_search_skill_def list_ex_iff by blast
qed

lemma findall_tech_member:
  "m \<in> set (findall_tech s i) \<Longrightarrow>
     \<exists>j e. j + 3 \<le> e \<and> e \<le> length s \<and> m = take (e - j) (drop j s) \<and>
           at_boundary s j \<and> at_boundary s e"
proof (induction s i rule: findall_tech.induct)
  case (1 s i)
  show ?case
  proof (cases "length s \<le> i")
    case True
    with "1.prems" show ?thesis by (simp add: findall_tech.simps [of s i])
  next
    case False
    show ?thesis
    proof (cases "tech_match_at s i")
      case None
      with False "1.prems" have "m \<in> set (findall_tech s (Suc i))"
        by (simp add: findall_tech.simps [of s i])
      with False None show ?thesis by (rule "1.IH"(1))
    next
      case (Some e)
      with False "1.prems" have "m = take (e - i) (drop i s) \<or> m \<in> set (findall_tech s e)"
        by (simp add: findall_tech.simps [of s i])
      then show ?thesis
      proof
        assume "m = take (e - i) (drop i s)"
        with tech_match_at_bounds [OF Some] show ?thesis by blast
      next
        assume "m \<in> set (findall_tech s e)"
        with False Some show ?thesis by (rule "1.IH"(2))
      qed
    qed
  qed
qed

lemma at_boundary_lower: "at_boundary (lower s) i = at_boundary s i"
  unfolding at_boundary_def lower_def by (auto simp: is_word_lower_char)

lemma lower_take_drop: "lower (take n (drop i s)) = take n (drop i (lower s))"
  unfolding lower_def by (simp add: take_map drop_map)

lemma lower_idem: "lower (lower s) = lower s"
  unfolding lower_def by (simp add: lower_char_idem)

lemma tech_token_matches:
  assumes "m \<in> set (findall_tech s i)"
  shows "re_search_skill (lower m) (lower s)"
proof -
  from findall_tech_member [OF assms] obtain j e where
    je: "j + 3 \<le> e" "e \<le> length s" and m: "m = take (e - j) (drop j s)"
    and b: "at_boundary s j" "at_boundary s e" by blast
  from je m have len: "length (lower m) = e - j" by (simp add: lower_def)
  have "matches_at (lower m) (lower s) j"
    unfolding matches_at_def len using je b m
    by (simp add: at_boundary_lower lower_take_drop)
  moreover from je have "j \<le> length (lower s)" by (simp add: lower_def)
  ultimately show ?thesis unfolding re_search_skill_iff by blast
qed

lemma ALL_SKILLS_lower: "list_all (\<lambda>skill. lower skill = skill) ALL_SKILLS"
  by code_simp

lemma extract_skills_cases:
  assumes "skill \<in> set (extract_skills raw_text)"
  obtains (dict) "skill \<in> set ALL_SKILLS"
      "re_search_skill (lower skill) (lower (preprocess_text raw_text))"
  | (tech) m where "m \<in> set (findall_tech (preprocess_text raw_text) 0)" "skill = lower m"
proof -
  let ?text = "preprocess_text raw_text"
  from assms have "skill \<in> add_tech_skills ?text (dictionary_skills (lower ?text))"
    by (simp add: set_extract_skills split: if_splits)
  then show ?thesis
    unfolding add_tech_skills_eq dictionary_skills_eq using dict tech by blast
qed

lemma extract_skills_lower:
  assumes "skill \<in> set (extract_skills raw_text)"
  shows "lower skill = skill"
  using assms
proof (cases rule: extract_skills_cases)
  case dict
  with ALL_SKILLS_lower show ?thesis by (simp add: list_all_iff)
next
  case (tech m)
  then show ?thesis by (simp add: lower_idem)
qed

lemma extract_skills_occurs:
  assumes "skill \<in> set (extract_skills raw_text)"
  shows "re_search_skill skill (lower (preprocess_text raw_text))"
  using assms
proof (cases rule: extract_skills_cases)
  case dict
  from assms have "lower skill = skill" by (rule extract_skills_lower)
  with dict(2) show ?thesis by simp
next
  case (tech m)
  from tech(1) have "re_search_skill (lower m) (lower (preprocess_text raw_text))"
    by (rule tech_token_matches)
  with tech(2) show ?thesis by simp
qed

lemma lower_nonword_member:
  assumes "c \<in> set (lower s)" and "\<not> is_word c"
  shows "c \<in> set s"
proof -
  from assms(1) obtain d where d: "d \<in> set s" "c = lower_char d"
    unfolding lower_def by auto
  with assms(2) have "\<not> is_word (lower_char d)" by simp
  then have "lower_char d = d" by (rule lower_char_nonword)
  with d show ?thesis by simp
qed

lemma matches_at_chars: "matches_at skill s i \<Longrightarrow> set skill \<subseteq> set s"
proof -
  assume "matches_at skill s i"
  then have "skill = take (length skill) (drop i s)" by (simp add: matches_at_def)
  then have "set skill \<subseteq> set (drop i s)" using set_take_subset by metis
  then show ?thesis using set_drop_subset by fastforce
qed

lemma re_search_skill_chars: "re_search_skill skill s \<Longrightarrow> set skill \<subseteq> set s"
  unfolding re_search_skill_iff using matches_at_chars by blast

lemma lower_preprocess_no_slash_plus:
  "CHR ''/'' \<notin> set (lower (preprocess_text t))" "CHR ''+'' \<notin> set (lower (preprocess_text t))"
  using lower_nonword_member [of "CHR ''/''" "preprocess_text t"]
    lower_nonword_member [of "CHR ''+''" "preprocess_text t"]
  by (auto simp: slash_plus_class preprocess_text_no_slash_plus)

text \<open>
  Claim C10: the dictionary term \<^verbatim>\<open>ci/cd\<close> is never extracted. The normalizer replaces
  every \<^verbatim>\<open>/\<close> by a space, so for every text the search for the term in the lowercased
  normalized text fails, the dictionary loop does not add it, and the list
  \<^verbatim>\<open>extract_skills\<close> returns does not hold it.
\<close>

theorem ci_cd_unextractable:
  "''ci/cd'' \<in> set ALL_SKILLS \<and>
   CHR ''/'' \<notin> set (preprocess_text raw_text) \<and>
   \<not> re_search_skill (lower ''ci/cd'') (lower (preprocess_text raw_text)) \<and>
   ''ci/cd'' \<notin> dictionary_skills (lower (preprocess_text raw_text)) \<and>
   ''ci/cd'' \<notin> set (extract_skills raw_text)"
proof -
  have mem: "''ci/cd'' \<in> set ALL_SKILLS" by code_simp
  have low: "lower ''ci/cd'' = ''ci/cd''" by code_simp
  have no: "\<not> re_search_skill ''ci/cd'' (lower (preprocess_text raw_text))"
  proof
    assume "re_search_skill ''ci/cd'' (lower (preprocess_text raw_text))"
    then have "set ''ci/cd'' \<subseteq> set (lower (preprocess_text raw_text))"
      by (rule re_search_skill_chars)
    then have "CHR ''/'' \<in> set (lower (preprocess_text raw_text))" by simp
    with lower_preprocess_no_slash_plus(1) show False by blast
  qed
  then have "''ci/cd'' \<notin> set (extract_skills raw_text)"
    using extract_skills_occurs by blast
  with mem low no show ?thesis
    by (simp add: preprocess_text_no_slash_plus dictionary_skills_eq)
qed

lemma ALL_SKILLS_shape:
  "list_all (\<lambda>skill. skill \<noteq> [] \<and>
      (is_word (hd skill) \<and> is_word (last skill) \<or>
       CHR ''+'' \<in> set skill \<or> CHR ''/'' \<in> set skill)) ALL_SKILLS"
  by code_simp

lemma matches_at_whole_word:
  assumes m: "matches_at skill s i" and ne: "skill \<noteq> []"
    and first: "is_word (hd skill)" and final: "is_word (last skill)"
  shows "\<exists>pre post. s = pre @ skill @ post \<and>
           (pre = [] \<or> \<not> is_word (last pre)) \<and> (post = [] \<or> \<not> is_word (hd post))"
proof -
  let ?n = "length skill"
  from m have eq: "take ?n (drop i s) = skill"
    and b1: "at_boundary s i" and b2: "at_boundary s (i + ?n)"
    by (simp_all add: matches_at_def)
  from ne have pos: "0 < ?n" by simp
  have "length (take ?n (drop i s)) = ?n" by (simp only: eq)
  then have "min ?n (length s - i) = ?n" by (simp only: length_take length_drop)
  with pos have bound: "i + ?n \<le> length s" and lt: "i < length s" by arith+
  have split: "s = take i s @ skill @ drop (i + ?n) s"
  proof -
    have "s = take i s @ drop i s" by simp
    also have "drop i s = take ?n (drop i s) @ drop ?n (drop i s)"
      by (rule append_take_drop_id [symmetric])
    also have "take ?n (drop i s) = skill" by (rule eq)
    also have "drop ?n (drop i s) = drop (i + ?n) s" by (simp add: add.commute)
    finally show ?thesis .
  qed
  have "hd skill = hd (take ?n (drop i s))" by (simp only: eq)
  also from pos have "\<dots> = hd (drop i s)" by simp
  also from lt have "\<dots> = s ! i" by (simp add: hd_drop_conv_nth)
  finally have at_i: "is_word (s ! i)" using first by simp
  have "last skill = last (take ?n (drop i s))" by (simp only: eq)
  also from ne eq have "\<dots> = take ?n (drop i s) ! (?n - 1)"
    by (simp add: last_conv_nth)
  also from pos bound have "\<dots> = s ! (i + (?n - 1))" by simp
  also from pos have "i + (?n - 1) = i + ?n - 1" by arith
  finally have at_end: "is_word (s ! (i + ?n - 1))" using final by simp
  from b1 lt at_i have left: "i = 0 \<or> \<not> is_word (s ! (i - 1))"
    by (auto simp: at_boundary_def)
  from b2 pos bound at_end have right: "length s \<le> i + ?n \<or> \<not> is_word (s ! (i + ?n))"
    by (auto simp: at_boundary_def)
  have "take i s = [] \<or> \<not> is_word (last (take i s))"
  proof (cases "i = 0")
    case True
    then show ?thesis by simp
  next
    case False
    with lt have "take i s \<noteq> []" and "length (take i s) = i" by auto
    then have "last (take i s) = take i s ! (i - 1)" by (simp add: last_conv_nth)
    also from False have "\<dots> = s ! (i - 1)" by simp
    finally have "last (take i s) = s ! (i - 1)" .
    with False left show ?thesis by simp
  qed
  moreover have "drop (i + ?n) s = [] \<or> \<not> is_word (hd (drop (i + ?n) s))"
  proof (cases "length s \<le> i + ?n")
    case True
    then show ?thesis by simp
  next
    case False
    then have "hd (drop (i + ?n) s) = s ! (i + ?n)" by (simp add: hd_drop_conv_nth)
    with False right show ?thesis by simp
  qed
  ultimately show ?thesis using split by blast
qed

text \<open>
  Claim C8: skill matching is on whole words, never on substrings. Whenever
  \<^verbatim>\<open>extract_skills\<close> reports a dictionary term, the lowercased normalized text is
  \<open>pre @ term @ post\<close> where \<open>pre\<close> is empty or ends in a non-word character and
  \<open>post\<close> is empty or starts with one (whichever of the two loops reported it); and
  the result for \<^verbatim>\<open>"javascriptx"\<close> does not hold \<^verbatim>\<open>"javascript"\<close>.
\<close>

theorem dictionary_terms_whole_word:
  "(skill \<in> set ALL_SKILLS \<and> skill \<in> set (extract_skills raw_text) \<longrightarrow>
      (\<exists>pre post. lower (preprocess_text raw_text) = pre @ skill @ post \<and>
         (pre = [] \<or> \<not> is_word (last pre)) \<and> (post = [] \<or> \<not> is_word (hd post)))) \<and>
   ''javascript'' \<in> set ALL_SKILLS \<and>
   ''javascript'' \<notin> set (extract_skills ''javascriptx'')"
proof (intro conjI impI)
  assume a: "skill \<in> set ALL_SKILLS \<and> skill \<in> set (extract_skills raw_text)"
  let ?text = "lower (preprocess_text raw_text)"
  from a have occurs: "re_search_skill skill ?text" by (simp add: extract_skills_occurs)
  then have chars: "set skill \<subseteq> set ?text" by (rule re_search_skill_chars)
  from a ALL_SKILLS_shape have ne: "skill \<noteq> []"
    and shape: "is_word (hd skill) \<and> is_word (last skill) \<or>
       CHR ''+'' \<in> set skill \<or> CHR ''/'' \<in> set skill"
    by (simp_all add: list_all_iff)
  from chars lower_preprocess_no_slash_plus [of raw_text]
  have "CHR ''+'' \<notin> set skill" and "CHR ''/'' \<notin> set skill" by blast+
  with shape have "is_word (hd skill)" and "is_word (last skill)" by simp_all
  moreover from occurs obtain i where "matches_at skill ?text i"
    unfolding re_search_skill_iff by blast
  ultimately show "\<exists>pre post. ?text = pre @ skill @ post \<and>
         (pre = [] \<or> \<not> is_word (last pre)) \<and> (post = [] \<or> \<not> is_word (hd post))"
    using ne by (intro matches_at_whole_word)
next
  show "''javascript'' \<in> set ALL_SKILLS" by code_simp
next
  have "\<not> re_search_skill ''javascript'' (lower (preprocess_text ''javascriptx''))"
    by code_simp
  then show "''javascript'' \<notin> set (extract_skills ''javascriptx'')"
    using extract_skills_occurs by blast
qed

theorem dictionary_terms_whole_word_witness:
  "''sql'' \<in> set ALL_SKILLS \<and> ''sql'' \<in> set (extract_skills ''SQL, nosql'') \<and>
   lower (preprocess_text ''SQL, nosql'') = ''sql  nosql'' \<and>
   (\<exists>pre post. lower (preprocess_text ''SQL, nosql'') = pre @ ''sql'' @ post \<and>
         (pre = [] \<or> \<not> is_word (last pre)) \<and> (post = [] \<or> \<not> is_word (hd post)))"
proof -
  have mem: "''sql'' \<in> set ALL_SKILLS" by code_simp
  have norm: "preprocess_text ''SQL, nosql'' = ''SQL  nosql''" by code_simp
  have low: "lower ''SQL  nosql'' = ''sql  nosql''" by code_simp
  have "re_search_skill (lower ''sql'') ''sql  nosql''" by code_simp
  with mem norm low have ex: "''sql'' \<in> set (extract_skills ''SQL, nosql'')"
    by (simp add: set_extract_skills add_tech_skills_eq dictionary_skills_eq)
  from mem ex dictionary_terms_whole_word [of "''sql''" "''SQL, nosql''"]
  have "\<exists>pre post. lower (preprocess_text ''SQL, nosql'') = pre @ ''sql'' @ post \<and>
         (pre = [] \<or> \<not> is_word (last pre)) \<and> (post = [] \<or> \<not> is_word (hd post))"
    by blast
  with mem ex norm low show ?thesis by simp
qed

subsection \<open>Floating-point numbers\<close>

lemma pow2_powi: "pow2 k = 2 powi k"
  unfolding pow2_def power_int_def by (simp add: power_one_over inverse_eq_divide)

lemma pow2_pos: "0 < pow2 k"
  unfolding pow2_powi by simp

lemma pow2_double: "pow2 (k + 1) = 2 * pow2 k"
  unfolding pow2_powi by (simp add: power_int_add)

lemma pow2_mono: "k \<le> l \<Longrightarrow> pow2 k \<le> pow2 l"
  unfolding pow2_powi by (rule power_int_increasing) simp_all

lemma pow2_diff: "pow2 (k - int n) * 2 ^ n = pow2 k"
  unfolding pow2_powi by (simp add: power_int_diff)

lemma round_half_even_near: "\<bar>of_int (round_half_even x) - x\<bar> \<le> 1 / 2"
proof -
  have "of_int \<lfloor>x\<rfloor> \<le> x" and "x < of_int \<lfloor>x\<rfloor> + 1" by linarith+
  then show ?thesis
    unfolding round_half_even_def Let_def by (auto simp: abs_le_iff)
qed

lemma round_half_even_ge: "of_int k \<le> x \<Longrightarrow> k \<le> round_half_even x"
proof -
  assume "of_int k \<le> x"
  then have "k \<le> \<lfloor>x\<rfloor>" by (simp add: le_floor_iff)
  moreover have "\<lfloor>x\<rfloor> \<le> round_half_even x" by (simp add: round_half_even_def Let_def)
  ultimately show ?thesis by simp
qed

lemma round_half_even_le: "x < of_int k + 1 / 2 \<Longrightarrow> round_half_even x \<le> k"
proof -
  assume a: "x < of_int k + 1 / 2"
  have n: "\<bar>of_int (round_half_even x) - x\<bar> \<le> 1 / 2" by (rule round_half_even_near)
  then have "of_int (round_half_even x) < (of_int k + 1 :: rat)" using a by linarith
  then have "of_int (round_half_even x) < (of_int (k + 1) :: rat)" by simp
  then have "round_half_even x < k + 1" by (simp only: of_int_less_iff)
  then show ?thesis by simp
qed

lemma exp_up_bounds: "1 \<le> a \<Longrightarrow> pow2 (exp_up a) \<le> a \<and> a < 2 * pow2 (exp_up a)"
proof (induction a rule: exp_up.induct)
  case (1 a)
  show ?case
  proof (cases "2 \<le> a")
    case True
    then have "1 \<le> a / 2" by simp
    with True "1.IH" have "pow2 (exp_up (a / 2)) \<le> a / 2 \<and> a / 2 < 2 * pow2 (exp_up (a / 2))"
      by blast
    moreover from True have "exp_up a = exp_up (a / 2) + 1" by (simp add: exp_up.simps [of a])
    ultimately show ?thesis by (simp add: pow2_double)
  next
    case False
    then have "exp_up a = 0" by (simp add: exp_up.simps [of a])
    with False "1.prems" show ?thesis by (simp add: pow2_def)
  qed
qed

lemma exp_down_bounds:
  "0 < a \<Longrightarrow> a < 2 \<Longrightarrow> pow2 (exp_down a) \<le> a \<and> a < 2 * pow2 (exp_down a)"
proof (induction a rule: exp_down.induct)
  case (1 a)
  show ?case
  proof (cases "a < 1")
    case True
    with "1.prems" have g: "0 < a \<and> a < 1" by simp
    from g have "0 < a * 2" and "a * 2 < 2" by simp_all
    with g "1.IH" have ih: "pow2 (exp_down (a * 2)) \<le> a * 2 \<and>
        a * 2 < 2 * pow2 (exp_down (a * 2))" by blast
    from g have e: "exp_down a = exp_down (a * 2) - 1" by (simp add: exp_down.simps [of a])
    have "pow2 (exp_down (a * 2)) = 2 * pow2 (exp_down a)"
      using pow2_double [of "exp_down a"] by (simp add: e)
    with ih show ?thesis by simp
  next
    case False
    then have "exp_down a = 0" by (simp add: exp_down.simps [of a])
    with False "1.prems" show ?thesis by (simp add: pow2_def)
  qed
qed

lemma exponent_bounds:
  assumes "0 < a"
  shows "pow2 (exponent a) \<le> a" and "a < 2 * pow2 (exponent a)"
proof -
  have "pow2 (exponent a) \<le> a \<and> a < 2 * pow2 (exponent a)"
  proof (cases "1 \<le> a")
    case True
    then show ?thesis by (simp add: exponent_def exp_up_bounds)
  next
    case False
    with assms have "0 < a" and "a < 2" by simp_all
    then have "pow2 (exp_down a) \<le> a \<and> a < 2 * pow2 (exp_down a)" by (rule exp_down_bounds)
    with False show ?thesis by (simp add: exponent_def)
  qed
  then show "pow2 (exponent a) \<le> a" and "a < 2 * pow2 (exponent a)" by simp_all
qed

lemma exponent_zero: "exponent 0 = 0"
  by (simp add: exponent_def exp_down.simps [of 0])

lemma exponent_small:
  assumes "0 \<le> r" and "r \<le> 2 ^ 21"
  shows "\<not> 1024 \<le> exponent r"
proof (cases "r = 0")
  case True
  then show ?thesis by (simp add: exponent_zero)
next
  case False
  with assms have "0 < r" by simp
  then have low: "pow2 (exponent r) \<le> r" by (rule exponent_bounds)
  show ?thesis
  proof
    assume "1024 \<le> exponent r"
    then have "22 \<le> exponent r" by simp
    then have "pow2 22 \<le> pow2 (exponent r)" by (rule pow2_mono)
    moreover have "pow2 22 = 2 ^ 22" by (simp add: pow2_def)
    ultimately have "(2 ^ 22 :: rat) \<le> r" using low by simp
    with assms(2) show False by simp
  qed
qed

lemma ulp_bound:
  assumes "0 < q"
  shows "pow2 (max (exponent q - 52) (- 1074)) \<le> (q + 1) / 2 ^ 52"
proof (cases "- 1074 \<le> exponent q - 52")
  case True
  have "pow2 (exponent q - int 52) * 2 ^ 52 = pow2 (exponent q)" by (rule pow2_diff)
  also from assms have "\<dots> \<le> q" by (rule exponent_bounds)
  finally have "pow2 (exponent q - 52) \<le> q / 2 ^ 52" by (simp add: le_divide_eq)
  also from assms have "\<dots> \<le> (q + 1) / 2 ^ 52" by (simp add: divide_right_mono)
  finally have "pow2 (exponent q - 52) \<le> (q + 1) / 2 ^ 52" .
  moreover from True have "max (exponent q - 52) (- 1074) = exponent q - 52" by simp
  ultimately show ?thesis by (simp only:)
next
  case False
  have "pow2 (- 1074) \<le> pow2 (- 52)" by (rule pow2_mono) simp
  also have "pow2 (- 52) = 1 / 2 ^ 52" by (simp add: pow2_def)
  also from assms have "\<dots> \<le> (q + 1) / 2 ^ 52" by (simp add: divide_right_mono)
  finally have "pow2 (- 1074) \<le> (q + 1) / 2 ^ 52" .
  moreover from False have "max (exponent q - 52) (- 1074) = - 1074" by simp
  ultimately show ?thesis by (simp only:)
qed

lemma round_double_error:
  assumes "0 \<le> q" and "q \<le> 2 ^ 20"
  shows "\<exists>r. round_double q = Finite r \<and> 0 \<le> r \<and> \<bar>r - q\<bar> \<le> (q + 1) / 2 ^ 53"
proof (cases "q = 0")
  case True
  then show ?thesis by (simp add: round_double_def)
next
  case False
  with assms have pos: "0 < q" by simp
  define p where "p = max (exponent q - 52) (- 1074)"
  define m where "m = round_half_even (q / pow2 p)"
  define r where "r = of_int m * pow2 p"
  have P: "0 < pow2 p" by (rule pow2_pos)
  have "\<bar>of_int m - q / pow2 p\<bar> \<le> 1 / 2" unfolding m_def by (rule round_half_even_near)
  then have "\<bar>of_int m - q / pow2 p\<bar> * pow2 p \<le> 1 / 2 * pow2 p"
    using P by (simp add: mult_right_mono)
  moreover have "\<bar>of_int m - q / pow2 p\<bar> * pow2 p = \<bar>r - q\<bar>"
  proof -
    have "\<bar>of_int m - q / pow2 p\<bar> * pow2 p = \<bar>(of_int m - q / pow2 p) * pow2 p\<bar>"
      using P by (simp add: abs_mult)
    also from P have "(of_int m - q / pow2 p) * pow2 p = r - q"
      by (simp add: r_def left_diff_distrib)
    finally show ?thesis .
  qed
  ultimately have near: "\<bar>r - q\<bar> \<le> pow2 p / 2" by simp
  from pos have "pow2 p \<le> (q + 1) / 2 ^ 52" unfolding p_def by (rule ulp_bound)
  with near have err: "\<bar>r - q\<bar> \<le> (q + 1) / 2 ^ 53" by simp
  from pos P have "of_int 0 \<le> q / pow2 p" by simp
  then have "0 \<le> m" unfolding m_def by (rule round_half_even_ge)
  with P have nonneg: "0 \<le> r" by (simp add: r_def)
  from assms have "(q + 1) / 2 ^ 53 \<le> 1" by simp
  with err have "r \<le> q + 1" by linarith
  with assms(2) have "r \<le> 2 ^ 21" by simp
  with nonneg have "\<not> 1024 \<le> exponent r" by (rule exponent_small)
  with pos have "round_double q = Finite r"
    by (simp add: round_double_def Let_def r_def m_def p_def)
  with nonneg err show ?thesis by blast
qed

lemma round_double_error_small:
  assumes "0 \<le> q" and "q \<le> 128"
  shows "\<exists>r. round_double q = Finite r \<and> 0 \<le> r \<and> \<bar>r - q\<bar> \<le> 1 / 50000000000000"
proof -
  from assms have "q \<le> 2 ^ 20" by simp
  with assms(1) obtain r where r: "round_double q = Finite r" "0 \<le> r"
    "\<bar>r - q\<bar> \<le> (q + 1) / 2 ^ 53"
    using round_double_error by blast
  from assms(2) have "q + 1 \<le> 129" by simp
  then have "(q + 1) / 2 ^ 53 \<le> 129 / 2 ^ 53" by (rule divide_right_mono) simp
  also have "(129 / 2 ^ 53 :: rat) \<le> 1 / 50000000000000" by simp
  finally have "(q + 1) / 2 ^ 53 \<le> 1 / 50000000000000" .
  with r(3) have "\<bar>r - q\<bar> \<le> 1 / 50000000000000" by (rule order_trans)
  with r(1,2) show ?thesis by blast
qed

lemma round_double_100: "round_double 100 = Finite 100"
  by code_simp

lemma round_double_hundredth:
  assumes "0 \<le> k" and "k \<le> 10000"
  shows "\<exists>r. round_double (of_int k / 100) = Finite r \<and> 0 \<le> r \<and> r \<le> 100"
proof (cases "k = 10000")
  case True
  then show ?thesis by (simp add: round_double_100)
next
  case False
  with assms have "k \<le> 9999" by simp
  then have "(of_int k :: rat) \<le> of_int 9999" by (simp only: of_int_le_iff)
  then have up: "(of_int k / 100 :: rat) \<le> 9999 / 100" by simp
  from assms(1) have lo: "0 \<le> (of_int k / 100 :: rat)" by simp
  from up have "(of_int k / 100 :: rat) \<le> 2 ^ 20" by simp
  with lo obtain r where r: "round_double (of_int k / 100) = Finite r" "0 \<le> r"
    "\<bar>r - of_int k / 100\<bar> \<le> (of_int k / 100 + 1) / 2 ^ 53"
    using round_double_error by blast
  from up have "(of_int k / 100 + 1) / 2 ^ 53 \<le> (1 / 100 :: rat)" by simp
  with r(3) up have "r \<le> 100" by linarith
  with r show ?thesis by blast
qed

lemma py_round2_range:
  assumes "0 \<le> q" and "q \<le> 100 + 1 / 250"
  shows "\<exists>r k. py_round2 (Finite q) = Finite r \<and> 0 \<le> r \<and> r \<le> 100 \<and>
           Finite r = round_double (of_int k / 100)"
proof -
  define k where "k = round_half_even (q * 100)"
  from assms(1) have "of_int 0 \<le> q * 100" by simp
  then have lo: "0 \<le> k" unfolding k_def by (rule round_half_even_ge)
  from assms(2) have "q * 100 < of_int 10000 + 1 / 2" by simp
  then have hi: "k \<le> 10000" unfolding k_def by (rule round_half_even_le)
  from round_double_hundredth [OF lo hi] obtain r where
    r: "round_double (of_int k / 100) = Finite r" "0 \<le> r" "r \<le> 100" by blast
  have "py_round2 (Finite q) = round_double (of_int k / 100)" by (simp add: k_def)
  with r have "py_round2 (Finite q) = Finite r \<and> 0 \<le> r \<and> r \<le> 100 \<and>
      Finite r = round_double (of_int k / 100)" by simp
  then show ?thesis by blast
qed

lemma np_round2_range:
  assumes "0 \<le> q" and "q \<le> 100 + 1 / 250"
  shows "\<exists>r k. np_round2 (Finite q) = Finite r \<and> 0 \<le> r \<and> r \<le> 100 \<and>
           Finite r = round_double (of_int k / 100)"
proof -
  from assms have "0 \<le> q * 100" and b: "q * 100 \<le> 10000 + 2 / 5" by simp_all
  moreover from b have "q * 100 \<le> 2 ^ 20" by simp
  ultimately obtain y where y: "round_double (q * 100) = Finite y" "0 \<le> y"
    "\<bar>y - q * 100\<bar> \<le> (q * 100 + 1) / 2 ^ 53"
    using round_double_error by blast
  from b have "(q * 100 + 1) / 2 ^ 53 \<le> 1 / 100" by simp
  with y(3) b have "y < 10000 + 1 / 2" by linarith
  then have up: "y < of_int 10000 + 1 / 2" by simp
  define k where "k = round_half_even y"
  from y(2) have "of_int 0 \<le> y" by simp
  then have lo: "0 \<le> k" unfolding k_def by (rule round_half_even_ge)
  from up have hi: "k \<le> 10000" unfolding k_def by (rule round_half_even_le)
  from round_double_hundredth [OF lo hi] obtain r where
    r: "round_double (of_int k / 100) = Finite r" "0 \<le> r" "r \<le> 100" by blast
  from y(1) have "np_round2 (Finite q) = round_double (of_int k / 100)"
    by (simp add: np_round2_def k_def)
  with r have "np_round2 (Finite q) = Finite r \<and> 0 \<le> r \<and> r \<le> 100 \<and>
      Finite r = round_double (of_int k / 100)" by simp
  then show ?thesis by blast
qed

lemma num_round2_range:
  assumes "num_value x = Finite q" and "0 \<le> q" and "q \<le> 100 + 1 / 250"
  shows "\<exists>r k. num_value (num_round2 x) = Finite r \<and> 0 \<le> r \<and> r \<le> 100 \<and>
           Finite r = round_double (of_int k / 100)"
proof (cases x)
  case (PyFloat d)
  with assms(1) have "num_value (num_round2 x) = py_round2 (Finite q)" by simp
  with py_round2_range [OF assms(2,3)] show ?thesis by simp
next
  case (NpFloat64 d)
  with assms(1) have "num_value (num_round2 x) = np_round2 (Finite q)" by simp
  with np_round2_range [OF assms(2,3)] show ?thesis by simp
qed

lemma num_value_mul: "num_value (num_mul x y) = fmul (num_value x) (num_value y)"
  by (cases x; cases y) simp_all

lemma num_value_add: "num_value (num_add x y) = fadd (num_value x) (num_value y)"
  by (cases x; cases y) simp_all

text \<open>
  Rounding the computed percentage gives a hundredth nearest to the exact percentage,
  as long as the error of the two operations is smaller than the distance of the next
  possible percentage from a tie.
\<close>

lemma nearest_hundredth:
  fixes x :: rat
  assumes n: "0 < n" "n < 2 ^ 30"
    and x: "\<bar>x - 100 * (of_nat m / of_nat n)\<bar> \<le> 3 / 1000000000000"
  shows "\<bar>of_int (round_half_even (x * 100)) / 100 - 100 * (of_nat m / of_nat n)\<bar>
           \<le> (1 / 200 :: rat)"
proof -
  define k where "k = round_half_even (x * 100)"
  define N :: rat where "N = of_nat n"
  define D :: int where "D = k * int n - 10000 * int m"
  from n have Npos: "0 < N" and Nle: "N \<le> 2 ^ 30" by (simp_all add: N_def)
  have near: "\<bar>of_int k - x * 100\<bar> \<le> 1 / 2" unfolding k_def by (rule round_half_even_near)
  define P :: rat where "P = 100 * (of_nat m / N)"
  from x have xP: "\<bar>x - P\<bar> \<le> 3 / 1000000000000" by (simp add: P_def N_def)
  from near xP have kP: "\<bar>of_int k - 100 * P\<bar> \<le> 1 / 2 + 3 / 10000000000" by linarith
  have DN: "of_int D = (of_int k - 100 * P) * N"
    using Npos by (simp add: D_def P_def N_def field_simps)
  have "\<bar>of_int D :: rat\<bar> = \<bar>of_int k - 100 * P\<bar> * N"
    using Npos by (simp add: DN abs_mult)
  also from kP Npos have "\<dots> \<le> (1 / 2 + 3 / 10000000000) * N" by (rule mult_right_mono [OF _ less_imp_le])
  also have "\<dots> = N / 2 + 3 / 10000000000 * N" by (simp add: distrib_right)
  also from Nle have "\<dots> < N / 2 + 1 / 2" by simp
  finally have "2 * \<bar>of_int D :: rat\<bar> < N + 1" by simp
  then have "(of_int (2 * \<bar>D\<bar>) :: rat) < of_int (int n + 1)" by (simp add: N_def)
  then have "2 * \<bar>D\<bar> < int n + 1" by (simp only: of_int_less_iff)
  then have "2 * \<bar>D\<bar> \<le> int n" by simp
  then have "(of_int (2 * \<bar>D\<bar>) :: rat) \<le> of_int (int n)" by (simp only: of_int_le_iff)
  then have "2 * \<bar>of_int D :: rat\<bar> \<le> N" by (simp add: N_def)
  then have "2 * (\<bar>of_int k - 100 * P\<bar> * N) \<le> 1 * N" using Npos by (simp add: DN abs_mult)
  then have "2 * \<bar>of_int k - 100 * P\<bar> * N \<le> 1 * N" by (simp only: mult.assoc)
  with Npos have h: "2 * \<bar>of_int k - 100 * P\<bar> \<le> 1" by (simp only: mult_le_cancel_right_pos)
  define y :: rat where "y = of_int k / 100"
  have ky: "of_int k = 100 * y" by (simp add: y_def)
  from h have "\<bar>100 * y - 100 * P\<bar> \<le> 1 / 2" unfolding ky by simp
  then have "100 * y - 100 * P \<le> 1 / 2" and "- (100 * y - 100 * P) \<le> 1 / 2"
    by (simp_all only: abs_le_iff)
  then have "y - P \<le> 1 / 200" and "- (y - P) \<le> 1 / 200" by linarith+
  then have "\<bar>y - P\<bar> \<le> 1 / 200" by (rule abs_leI)
  then show ?thesis by (simp add: y_def k_def P_def N_def)
qed

subsection \<open>The skill scorer\<close>

lemma score_resume_by_skills_matched:
  "snd (score_resume_by_skills resume_text job_skills) =
     {skill \<in> lower ` set job_skills.
        re_search_skill skill (lower (preprocess_text resume_text))}"
  by (auto simp: score_resume_by_skills_def Let_def fold_insert_if)

lemma score_resume_by_skills_eq:
  assumes "job_skills \<noteq> []"
  shows "score_resume_by_skills resume_text job_skills =
     (py_round2
        (fmul (int_true_div
                 (card {skill \<in> lower ` set job_skills.
                    re_search_skill skill (lower (preprocess_text resume_text))})
                 (card (lower ` set job_skills)))
           (Finite 100)),
      {skill \<in> lower ` set job_skills.
         re_search_skill skill (lower (preprocess_text resume_text))})"
proof -
  have "fold (\<lambda>skill matched.
            if re_search_skill skill (lower (preprocess_text resume_text))
            then insert skill matched else matched) (map lower job_skills) {} =
        {skill \<in> lower ` set job_skills.
           re_search_skill skill (lower (preprocess_text resume_text))}"
    using fold_insert_if [of "\<lambda>skill. re_search_skill skill (lower (preprocess_text resume_text))"
        "\<lambda>skill. skill" "map lower job_skills" "{}"]
    by simp
  with assms show ?thesis by (simp add: score_resume_by_skills_def Let_def)
qed

text \<open>The percentage before the last rounding: at most 100 and a little.\<close>

lemma percentage_bounds:
  assumes "m \<le> n" and "0 < n"
  shows "\<exists>x. fmul (int_true_div m n) (Finite 100) = Finite x \<and> 0 \<le> x \<and>
           \<bar>x - 100 * (of_nat m / of_nat n)\<bar> \<le> 3 / 1000000000000"
proof -
  define q :: rat where "q = of_nat m / of_nat n"
  from assms have q: "0 \<le> q" "q \<le> 1" by (simp_all add: q_def)
  then have "q \<le> 128" by simp
  with q(1) obtain x1 where x1: "round_double q = Finite x1" "0 \<le> x1"
    "\<bar>x1 - q\<bar> \<le> 1 / 50000000000000"
    using round_double_error_small by blast
  from x1(3) q(2) have x1_le: "x1 \<le> 1 + 1 / 100" by linarith
  from x1(2) have "0 \<le> x1 * 100" by simp
  moreover from x1_le have "x1 * 100 \<le> 128" by simp
  ultimately obtain x where x: "round_double (x1 * 100) = Finite x" "0 \<le> x"
    "\<bar>x - x1 * 100\<bar> \<le> 1 / 50000000000000"
    using round_double_error_small by blast
  from x1(3) x(3) have "\<bar>x - 100 * q\<bar> \<le> 3 / 1000000000000" by linarith
  moreover from x1(1) x(1) have "fmul (int_true_div m n) (Finite 100) = Finite x"
    by (simp add: int_true_div_def q_def)
  ultimately show ?thesis using x(2) unfolding q_def by blast
qed

lemma skill_score_range:
  "\<exists>r k. fst (score_resume_by_skills resume_text job_skills) = Finite r \<and> 0 \<le> r \<and> r \<le> 100 \<and>
     Finite r = round_double (of_int k / 100)"
proof (cases "job_skills = []")
  case True
  then have "fst (score_resume_by_skills resume_text job_skills) = Finite 0 \<and>
      (0::rat) \<le> 0 \<and> (0::rat) \<le> 100 \<and> Finite 0 = round_double (of_int 0 / 100)"
    by (simp add: score_resume_by_skills_def round_double_def)
  then show ?thesis by blast
next
  case False
  let ?U = "lower ` set job_skills"
  let ?M = "{skill \<in> ?U. re_search_skill skill (lower (preprocess_text resume_text))}"
  have le: "card ?M \<le> card ?U" by (rule card_mono) auto
  from False have pos: "0 < card ?U" by (simp add: card_gt_0_iff)
  from percentage_bounds [OF le pos] obtain x where
    x: "fmul (int_true_div (card ?M) (card ?U)) (Finite 100) = Finite x" "0 \<le> x"
    "\<bar>x - 100 * (of_nat (card ?M) / of_nat (card ?U))\<bar> \<le> 3 / 1000000000000" by blast
  from le pos have "(of_nat (card ?M) / of_nat (card ?U) :: rat) \<le> 1"
    by (simp add: divide_le_eq)
  with x(3) have "x \<le> 100 + 1 / 250" by linarith
  with x(2) have "\<exists>r k. py_round2 (Finite x) = Finite r \<and> 0 \<le> r \<and> r \<le> 100 \<and>
           Finite r = round_double (of_int k / 100)" by (rule py_round2_range)
  with x(1) False show ?thesis by (simp add: score_resume_by_skills_eq)
qed

text \<open>
  Claim C7 says that for a non-empty list of required skills the score is
  \<open>100 * |matched| / |unique lowercased required skills|\<close> rounded to 2 decimals. The
  code divides first and multiplies by 100 afterwards, both in doubles, so the product
  can fall just below a tie that the exact percentage sits on: with 23 of 160 unique
  skills matched the exact percentage is 14.375, which rounds to 14.38 (as does
  \<^verbatim>\<open>round(100 * 23 / 160, 2)\<close>), but the code computes \<^verbatim>\<open>(23 / 160) * 100\<close>, a double below
  14.375, and returns 14.37.
\<close>

theorem score_resume_by_skills_tie_counterexample:
  "score_resume_by_skills ''a b c d e f g h i j k l m n o p q r s t u v w''
     [''a'', ''b'', ''c'', ''d'', ''e'', ''f'', ''g'', ''h'', ''i'', ''j'', ''k'', ''l'',
      ''m'', ''n'', ''o'', ''p'', ''q'', ''r'', ''s'', ''t'', ''u'', ''v'', ''w'', ''xa'',
      ''xb'', ''xc'', ''xd'', ''xe'', ''xf'', ''xg'', ''xh'', ''xi'', ''xj'', ''xk'',
      ''xl'', ''xm'', ''xn'', ''xo'', ''xp'', ''xq'', ''xr'', ''xs'', ''xt'', ''xu'',
      ''xv'', ''xw'', ''xx'', ''xy'', ''xz'', ''ya'', ''yb'', ''yc'', ''yd'', ''ye'',
      ''yf'', ''yg'', ''yh'', ''yi'', ''yj'', ''yk'', ''yl'', ''ym'', ''yn'', ''yo'',
      ''yp'', ''yq'', ''yr'', ''ys'', ''yt'', ''yu'', ''yv'', ''yw'', ''yx'', ''yy'',
      ''yz'', ''za'', ''zb'', ''zc'', ''zd'', ''ze'', ''zf'', ''zg'', ''zh'', ''zi'',
      ''zj'', ''zk'', ''zl'', ''zm'', ''zn'', ''zo'', ''zp'', ''zq'', ''zr'', ''zs'',
      ''zt'', ''zu'', ''zv'', ''zw'', ''zx'', ''zy'', ''zz'', ''ax'', ''ay'', ''az'',
      ''bx'', ''by'', ''bz'', ''cx'', ''cy'', ''cz'', ''dx'', ''dy'', ''dz'', ''ex'',
      ''ey'', ''ez'', ''fx'', ''fy'', ''fz'', ''gx'', ''gy'', ''gz'', ''hx'', ''hy'',
      ''hz'', ''ix'', ''iy'', ''iz'', ''jx'', ''jy'', ''jz'', ''kx'', ''ky'', ''kz'',
      ''lx'', ''ly'', ''lz'', ''mx'', ''my'', ''mz'', ''nx'', ''ny'', ''nz'', ''ox'',
      ''oy'', ''oz'', ''px'', ''py'', ''pz'', ''qx'', ''qy'', ''qz'', ''rx'', ''ry'',
      ''rz'', ''sx'', ''sy'', ''sz'', ''tx'', ''ty''] =
     (round_double (1437 / 100),
      set
     [''a'', ''b'', ''c'', ''d'', ''e'', ''f'', ''g'', ''h'', ''i'', ''j'', ''k'', ''l'',
      ''m'', ''n'', ''o'', ''p'', ''q'', ''r'', ''s'', ''t'', ''u'', ''v'', ''w'']) \<and>
   card (set
     [''a'', ''b'', ''c'', ''d'', ''e'', ''f'', ''g'', ''h'', ''i'', ''j'', ''k'', ''l'',
      ''m'', ''n'', ''o'', ''p'', ''q'', ''r'', ''s'', ''t'', ''u'', ''v'', ''w'']) = 23 \<and>
   card (lower ` set
     [''a'', ''b'', ''c'', ''d'', ''e'', ''f'', ''g'', ''h'', ''i'', ''j'', ''k'', ''l'',
      ''m'', ''n'', ''o'', ''p'', ''q'', ''r'', ''s'', ''t'', ''u'', ''v'', ''w'', ''xa'',
      ''xb'', ''xc'', ''xd'', ''xe'', ''xf'', ''xg'', ''xh'', ''xi'', ''xj'', ''xk'',
      ''xl'', ''xm'', ''xn'', ''xo'', ''xp'', ''xq'', ''xr'', ''xs'', ''xt'', ''xu'',
      ''xv'', ''xw'', ''xx'', ''xy'', ''xz'', ''ya'', ''yb'', ''yc'', ''yd'', ''ye'',
      ''yf'', ''yg'', ''yh'', ''yi'', ''yj'', ''yk'', ''yl'', ''ym'', ''yn'', ''yo'',
      ''yp'', ''yq'', ''yr'', ''ys'', ''yt'', ''yu'', ''yv'', ''yw'', ''yx'', ''yy'',
      ''yz'', ''za'', ''zb'', ''zc'', ''zd'', ''ze'', ''zf'', ''zg'', ''zh'', ''zi'',
      ''zj'', ''zk'', ''zl'', ''zm'', ''zn'', ''zo'', ''zp'', ''zq'', ''zr'', ''zs'',
      ''zt'', ''zu'', ''zv'', ''zw'', ''zx'', ''zy'', ''zz'', ''ax'', ''ay'', ''az'',
      ''bx'', ''by'', ''bz'', ''cx'', ''cy'', ''cz'', ''dx'', ''dy'', ''dz'', ''ex'',
      ''ey'', ''ez'', ''fx'', ''fy'', ''fz'', ''gx'', ''gy'', ''gz'', ''hx'', ''hy'',
      ''hz'', ''ix'', ''iy'', ''iz'', ''jx'', ''jy'', ''jz'', ''kx'', ''ky'', ''kz'',
      ''lx'', ''ly'', ''lz'', ''mx'', ''my'', ''mz'', ''nx'', ''ny'', ''nz'', ''ox'',
      ''oy'', ''oz'', ''px'', ''py'', ''pz'', ''qx'', ''qy'', ''qz'', ''rx'', ''ry'',
      ''rz'', ''sx'', ''sy'', ''sz'', ''tx'', ''ty'']) = 160 \<and>
   of_int (round_half_even (100 * (100 * 23 / 160))) / 100 = (1438 / 100 :: rat) \<and>
   py_round2 (round_double (100 * 23 / 160)) = round_double (1438 / 100) \<and>
   round_double (1437 / 100) \<noteq> round_double (1438 / 100)"
  (is "score_resume_by_skills ?resume ?skills = (_, set ?present) \<and> _")
proof -
  have ne: "?skills \<noteq> []" by simp
  have low: "map lower ?skills = ?skills" by code_simp
  have norm: "lower (preprocess_text ?resume) = ?resume" by code_simp
  have candidates: "filter (\<lambda>skill. list_all (\<lambda>c. c \<in> set ?resume) skill) ?skills = ?present"
    by code_simp
  have found: "list_all (\<lambda>skill. re_search_skill skill ?resume) ?present" by code_simp
  have unique: "lower ` set ?skills = set ?skills"
    using arg_cong [OF low, of set] by (simp only: set_map)
  have matched: "{skill \<in> set ?skills. re_search_skill skill ?resume} = set ?present"
  proof (intro equalityI subsetI)
    fix skill
    assume "skill \<in> {skill \<in> set ?skills. re_search_skill skill ?resume}"
    then have mem: "skill \<in> set ?skills" and "re_search_skill skill ?resume" by simp_all
    then have "set skill \<subseteq> set ?resume" using re_search_skill_chars by blast
    then have "list_all (\<lambda>c. c \<in> set ?resume) skill" unfolding list_all_iff by blast
    with mem have "skill \<in> set (filter (\<lambda>skill. list_all (\<lambda>c. c \<in> set ?resume) skill) ?skills)"
      by (simp only: set_filter mem_Collect_eq simp_thms)
    then show "skill \<in> set ?present" by (simp only: candidates)
  next
    fix skill
    assume p: "skill \<in> set ?present"
    with found have "re_search_skill skill ?resume" unfolding list_all_iff by blast
    moreover from p have "skill \<in> set (filter (\<lambda>skill. list_all (\<lambda>c. c \<in> set ?resume) skill) ?skills)"
      by (simp only: candidates)
    then have "skill \<in> set ?skills" by (simp only: set_filter mem_Collect_eq)
    ultimately show "skill \<in> {skill \<in> set ?skills. re_search_skill skill ?resume}" by blast
  qed
  have card_matched: "card (set ?present) = 23" by code_simp
  have card_unique: "card (set ?skills) = 160" by code_simp
  have val: "py_round2 (fmul (int_true_div 23 160) (Finite 100)) = round_double (1437 / 100)"
    by code_simp
  have "score_resume_by_skills ?resume ?skills =
      (py_round2 (fmul (int_true_div (card (set ?present)) (card (set ?skills))) (Finite 100)),
       set ?present)"
    unfolding score_resume_by_skills_eq [OF ne] norm unique matched ..
  then have code: "score_resume_by_skills ?resume ?skills =
      (round_double (1437 / 100), set ?present)"
    unfolding card_matched card_unique val .
  have exact: "of_int (round_half_even (100 * (100 * 23 / 160))) / 100 = (1438 / 100 :: rat)"
    by code_simp
  have claimed: "py_round2 (round_double (100 * 23 / 160)) = round_double (1438 / 100)"
    by code_simp
  have differ: "round_double (1437 / 100) \<noteq> round_double (1438 / 100)" by code_simp
  from code card_matched card_unique exact claimed differ show ?thesis
    unfolding unique by (intro conjI)
qed

text \<open>
  Claim C7 as amended: \<^verbatim>\<open>score_resume_by_skills\<close> returns \<open>(0.0, \<emptyset>)\<close> for the empty list of
  required skills. For any other list it returns the set of the lowercased required
  skills found in the resume as whole words, and as the score Python's
  \<^verbatim>\<open>round((|matched| / |unique|) * 100, 2)\<close> computed in doubles. With fewer than \<open>2 ^ 30\<close>
  unique skills that score is the double of a hundredth \<open>k / 100\<close> within 0.005 of the
  exact percentage: a nearest hundredth, at a tie either of the two. For the resume
  \<^verbatim>\<open>"I use Python and SQL daily"\<close> and the skills \<^verbatim>\<open>["python", "java"]\<close> it returns
  \<open>(50.0, {"python"})\<close>.
\<close>

theorem score_resume_by_skills_percentage:
  "score_resume_by_skills resume_text [] = (Finite 0, {}) \<and>
   (let matched = {skill \<in> lower ` set required_skills.
                     re_search_skill skill (lower (preprocess_text resume_text))};
        unique = lower ` set required_skills
    in (required_skills \<noteq> [] \<longrightarrow>
          score_resume_by_skills resume_text required_skills =
            (py_round2 (fmul (int_true_div (card matched) (card unique)) (Finite 100)),
             matched)) \<and>
       (required_skills \<noteq> [] \<and> card unique < 2 ^ 30 \<longrightarrow>
          (\<exists>k::int.
             fst (score_resume_by_skills resume_text required_skills) =
               round_double (of_int k / 100) \<and>
             \<bar>of_int k / 100 - 100 * (of_nat (card matched) / of_nat (card unique))\<bar>
               \<le> (1 / 200 :: rat)))) \<and>
   score_resume_by_skills ''I use Python and SQL daily'' [''python'', ''java''] =
     (Finite 50, {''python''})"
proof (intro conjI)
  show "score_resume_by_skills resume_text [] = (Finite 0, {})"
    by (simp add: score_resume_by_skills_def)
next
  let ?U = "lower ` set required_skills"
  let ?M = "{skill \<in> ?U. re_search_skill skill (lower (preprocess_text resume_text))}"
  have formula: "score_resume_by_skills resume_text required_skills =
      (py_round2 (fmul (int_true_div (card ?M) (card ?U)) (Finite 100)), ?M)"
    if "required_skills \<noteq> []"
    using that by (rule score_resume_by_skills_eq)
  have nearest: "\<exists>k::int.
      fst (score_resume_by_skills resume_text required_skills) = round_double (of_int k / 100) \<and>
      \<bar>of_int k / 100 - 100 * (of_nat (card ?M) / of_nat (card ?U))\<bar> \<le> (1 / 200 :: rat)"
    if ne: "required_skills \<noteq> []" and small: "card ?U < 2 ^ 30"
  proof -
    have le: "card ?M \<le> card ?U" by (rule card_mono) auto
    from ne have pos: "0 < card ?U" by (simp add: card_gt_0_iff)
    from percentage_bounds [OF le pos] obtain x where
      x: "fmul (int_true_div (card ?M) (card ?U)) (Finite 100) = Finite x"
      "\<bar>x - 100 * (of_nat (card ?M) / of_nat (card ?U))\<bar> \<le> 3 / 1000000000000" by blast
    from pos small x(2)
    have "\<bar>of_int (round_half_even (x * 100)) / 100 -
        100 * (of_nat (card ?M) / of_nat (card ?U))\<bar> \<le> (1 / 200 :: rat)"
      by (rule nearest_hundredth)
    moreover from formula [OF ne] x(1)
    have "fst (score_resume_by_skills resume_text required_skills) =
        round_double (of_int (round_half_even (x * 100)) / 100)" by simp
    ultimately show ?thesis by blast
  qed
  from formula nearest
  show "let matched = ?M; unique = ?U
    in (required_skills \<noteq> [] \<longrightarrow>
          score_resume_by_skills resume_text required_skills =
            (py_round2 (fmul (int_true_div (card matched) (card unique)) (Finite 100)),
             matched)) \<and>
       (required_skills \<noteq> [] \<and> card unique < 2 ^ 30 \<longrightarrow>
          (\<exists>k::int.
             fst (score_resume_by_skills resume_text required_skills) =
               round_double (of_int k / 100) \<and>
             \<bar>of_int k / 100 - 100 * (of_nat (card matched) / of_nat (card unique))\<bar>
               \<le> (1 / 200 :: rat)))"
    unfolding Let_def by blast
next
  show "score_resume_by_skills ''I use Python and SQL daily'' [''python'', ''java''] =
     (Finite 50, {''python''})"
    by code_simp
qed

theorem score_resume_by_skills_percentage_witness:
  "[''SQL'', ''sql'', ''Java'', ''Rust''] \<noteq> [] \<and>
   card (lower ` set [''SQL'', ''sql'', ''Java'', ''Rust'']) = 3 \<and>
   {skill \<in> lower ` set [''SQL'', ''sql'', ''Java'', ''Rust''].
      re_search_skill skill (lower (preprocess_text ''sql''))} = {''sql''} \<and>
   score_resume_by_skills ''sql'' [''SQL'', ''sql'', ''Java'', ''Rust''] =
     (round_double (3333 / 100), {''sql''}) \<and>
   (\<exists>k::int.
      fst (score_resume_by_skills ''sql'' [''SQL'', ''sql'', ''Java'', ''Rust'']) =
        round_double (of_int k / 100) \<and>
      \<bar>of_int k / 100 - 100 * (of_nat 1 / of_nat 3)\<bar> \<le> (1 / 200 :: rat))"
proof -
  let ?skills = "[''SQL'', ''sql'', ''Java'', ''Rust'']"
  have ne: "?skills \<noteq> []" by simp
  have unique: "card (lower ` set ?skills) = 3" by code_simp
  have matched: "{skill \<in> lower ` set ?skills.
      re_search_skill skill (lower (preprocess_text ''sql''))} = {''sql''}" by code_simp
  have val: "score_resume_by_skills ''sql'' ?skills = (round_double (3333 / 100), {''sql''})"
    by code_simp
  from unique have small: "card (lower ` set ?skills) < 2 ^ 30" by simp
  from ne small score_resume_by_skills_percentage [of "''sql''" ?skills]
  have "\<exists>k::int.
      fst (score_resume_by_skills ''sql'' ?skills) = round_double (of_int k / 100) \<and>
      \<bar>of_int k / 100 - 100 * (of_nat (card {skill \<in> lower ` set ?skills.
          re_search_skill skill (lower (preprocess_text ''sql''))}) /
        of_nat (card (lower ` set ?skills)))\<bar> \<le> (1 / 200 :: rat)"
    unfolding Let_def by blast
  then have "\<exists>k::int.
      fst (score_resume_by_skills ''sql'' ?skills) = round_double (of_int k / 100) \<and>
      \<bar>of_int k / 100 - 100 * (of_nat 1 / of_nat 3)\<bar> \<le> (1 / 200 :: rat)"
    unfolding matched unique by simp
  with ne unique matched val show ?thesis by blast
qed

text \<open>
  Claim C9: every string of the matched set \<^verbatim>\<open>score_resume_by_skills\<close> returns is the
  lowercased form of a required skill, so the matched set is included in
  \<open>{lower s | s \<in> required_skills}\<close>; a caller who passes \<^verbatim>\<open>["Python"]\<close> gets
  \<^verbatim>\<open>{"python"}\<close> and never the string \<^verbatim>\<open>"Python"\<close>.
\<close>

theorem matched_skills_lowercased:
  "snd (score_resume_by_skills resume_text required_skills) \<subseteq> lower ` set required_skills \<and>
   snd (score_resume_by_skills ''Python'' [''Python'']) = {''python''} \<and>
   ''Python'' \<notin> snd (score_resume_by_skills ''Python'' [''Python''])"
proof -
  have "snd (score_resume_by_skills ''Python'' [''Python'']) = {''python''}"
    by code_simp
  then show ?thesis by (auto simp: score_resume_by_skills_matched)
qed

subsection \<open>The similarity scorer\<close>

lemma score_resume_by_text_similarity_returns:
  "\<exists>score. score_resume_by_text_similarity cosine resume_text job_text = Inr score"
  by (simp add: score_resume_by_text_similarity_def Let_def split: sum.split)

lemma zero_score_range:
  "\<exists>r k. num_value (PyFloat (Finite 0)) = Finite r \<and> 0 \<le> r \<and> r \<le> 100 \<and>
     Finite r = round_double (of_int k / 100)"
proof -
  have "num_value (PyFloat (Finite 0)) = Finite 0 \<and> (0::rat) \<le> 0 \<and> (0::rat) \<le> 100 \<and>
      Finite 0 = round_double (of_int 0 / 100)"
    by (simp add: round_double_def)
  then show ?thesis by blast
qed

lemma text_score_range:
  assumes cos: "\<And>a b v. cosine a b = Inr v \<Longrightarrow>
      \<exists>c. num_value v = Finite c \<and> 0 \<le> c \<and> c \<le> 1 + 1 / 1000000000"
    and t: "score_resume_by_text_similarity cosine resume_text job_text = Inr text_score"
  shows "\<exists>r k. num_value text_score = Finite r \<and> 0 \<le> r \<and> r \<le> 100 \<and>
           Finite r = round_double (of_int k / 100)"
proof (cases "resume_text = [] \<or> job_text = []")
  case True
  with t have "text_score = PyFloat (Finite 0)"
    by (auto simp: score_resume_by_text_similarity_def)
  with zero_score_range show ?thesis by simp
next
  case False
  show ?thesis
  proof (cases "cosine (preprocess_text resume_text) (preprocess_text job_text)")
    case (Inl e)
    with False t have "text_score = PyFloat (Finite 0)"
      by (auto simp: score_resume_by_text_similarity_def Let_def)
    with zero_score_range show ?thesis by simp
  next
    case (Inr v)
    with False t have eq: "text_score = num_round2 (num_mul v (PyFloat (Finite 100)))"
      by (auto simp: score_resume_by_text_similarity_def Let_def)
    from cos [OF Inr] obtain c where c: "num_value v = Finite c" "0 \<le> c"
      "c \<le> 1 + 1 / 1000000000" by blast
    from c(2) have "0 \<le> c * 100" by simp
    moreover from c(3) have "c * 100 \<le> 128" by simp
    ultimately obtain x where x: "round_double (c * 100) = Finite x" "0 \<le> x"
      "\<bar>x - c * 100\<bar> \<le> 1 / 50000000000000"
      using round_double_error_small by blast
    from x(3) c(3) have "x \<le> 100 + 1 / 250" by linarith
    moreover from c(1) x(1) have "num_value (num_mul v (PyFloat (Finite 100))) = Finite x"
      by (simp add: num_value_mul)
    ultimately show ?thesis unfolding eq using x(2) by (intro num_round2_range)
  qed
qed

text \<open>
  Claim C5: \<^verbatim>\<open>score_resume_by_text_similarity\<close> returns 0.0 when either text is empty,
  returns 0.0 when the vectorization raises, and for every pair of strings returns a
  score: no exception leaves the function, whatever the library does.
\<close>

theorem score_resume_by_text_similarity_total:
  "(resume_text = [] \<or> job_description_text = [] \<longrightarrow>
      score_resume_by_text_similarity cosine resume_text job_description_text =
        Inr (PyFloat (Finite 0))) \<and>
   (cosine (preprocess_text resume_text) (preprocess_text job_description_text) = Inl e \<longrightarrow>
      score_resume_by_text_similarity cosine resume_text job_description_text =
        Inr (PyFloat (Finite 0))) \<and>
   (\<exists>score. score_resume_by_text_similarity cosine resume_text job_description_text = Inr score)"
  by (simp add: score_resume_by_text_similarity_def Let_def split: sum.split)

theorem score_resume_by_text_similarity_total_witness:
  "score_resume_by_text_similarity (\<lambda>a b. Inr (NpFloat64 (Finite 1))) [] ''sql'' =
     Inr (PyFloat (Finite 0)) \<and>
   score_resume_by_text_similarity (\<lambda>a b. Inl ValueError) ''the'' ''and'' =
     Inr (PyFloat (Finite 0))"
proof -
  have empty: "([] :: string) = [] \<or> ''sql'' = []" by simp
  have raises: "(\<lambda>a b. Inl ValueError :: py_exception + pynum) (preprocess_text ''the'')
      (preprocess_text ''and'') = Inl ValueError" by simp
  from empty score_resume_by_text_similarity_total
    [of "[]" "''sql''" "\<lambda>a b. Inr (NpFloat64 (Finite 1))"]
  have "score_resume_by_text_similarity (\<lambda>a b. Inr (NpFloat64 (Finite 1))) [] ''sql'' =
      Inr (PyFloat (Finite 0))" by blast
  moreover
  from raises score_resume_by_text_similarity_total
    [of "''the''" "''and''" "\<lambda>a b. Inl ValueError" ValueError]
  have "score_resume_by_text_similarity (\<lambda>a b. Inl ValueError) ''the'' ''and'' =
      Inr (PyFloat (Finite 0))"
    by blast
  ultimately show ?thesis by (rule conjI)
qed

subsection \<open>The score aggregator\<close>

lemma calculate_final_resume_score_fields:
  assumes "resume_text \<noteq> []" and "job_text \<noteq> []"
  shows "\<exists>text_score.
     score_resume_by_text_similarity cosine resume_text job_text = Inr text_score \<and>
     calculate_final_resume_score cosine resume_text job_text w1 w2 =
       Inr \<lparr>Skill_Match_Score =
              PyFloat (fst (score_resume_by_skills resume_text (extract_skills job_text))),
            Text_Similarity_Score = text_score,
            Final_Resume_Score =
              num_round2
                (num_add
                   (num_mul
                      (PyFloat (fst (score_resume_by_skills resume_text (extract_skills job_text))))
                      (PyFloat w1))
                   (num_mul text_score (PyFloat w2))),
            Matched_Skills = snd (score_resume_by_skills resume_text (extract_skills job_text)),
            Job_Skills = extract_skills job_text,
            Resume_Skills = extract_skills resume_text\<rparr>"
proof -
  obtain text_score where
    t: "score_resume_by_text_similarity cosine resume_text job_text = Inr text_score"
    using score_resume_by_text_similarity_returns by blast
  with assms show ?thesis
    by (simp add: calculate_final_resume_score_def Let_def split: prod.split)
qed

text \<open>
  Claim C6: when the resume text or the job text is empty,
  \<^verbatim>\<open>calculate_final_resume_score\<close> returns the bundle whose three scores are 0.0, whose
  matched-skill set is empty and whose two skill lists are empty; it raises nothing,
  whatever the weights and the library are.
\<close>

theorem calculate_final_resume_score_empty:
  assumes "resume_text = [] \<or> job_description_text = []"
  shows "calculate_final_resume_score cosine resume_text job_description_text
           skill_weight text_weight =
         Inr \<lparr>Skill_Match_Score = PyFloat (Finite 0),
              Text_Similarity_Score = PyFloat (Finite 0),
              Final_Resume_Score = PyFloat (Finite 0),
              Matched_Skills = {}, Job_Skills = [], Resume_Skills = []\<rparr>"
  using assms by (simp add: calculate_final_resume_score_def)

theorem calculate_final_resume_score_empty_witness:
  "calculate_final_resume_score (\<lambda>a b. Inl ValueError) ''python'' []
     (Finite (7 / 10)) (Finite (3 / 10)) =
     Inr \<lparr>Skill_Match_Score = PyFloat (Finite 0),
          Text_Similarity_Score = PyFloat (Finite 0),
          Final_Resume_Score = PyFloat (Finite 0),
          Matched_Skills = {}, Job_Skills = [], Resume_Skills = []\<rparr>"
proof -
  have "''python'' = [] \<or> ([] :: string) = []" by simp
  then show ?thesis by (rule calculate_final_resume_score_empty)
qed

text \<open>
  Claim C2: for every call of \<^verbatim>\<open>calculate_final_resume_score\<close> the matched skills of
  the returned bundle are among its job skills. The call returns a bundle for all texts
  and weights, empty texts included, and the inclusion holds for each of them.
\<close>

theorem matched_skills_subset_job_skills:
  "\<exists>bundle. calculate_final_resume_score cosine resume_text job_text w1 w2 = Inr bundle \<and>
     Matched_Skills bundle \<subseteq> set (Job_Skills bundle)"
proof (cases "resume_text = [] \<or> job_text = []")
  case True
  then show ?thesis by (auto simp: calculate_final_resume_score_def)
next
  case False
  let ?js = "extract_skills job_text"
  have "lower ` set ?js = set ?js"
    using extract_skills_lower [of _ job_text] by force
  then have "snd (score_resume_by_skills resume_text ?js) \<subseteq> set ?js"
    by (auto simp: score_resume_by_skills_matched)
  moreover from False have "resume_text \<noteq> []" and "job_text \<noteq> []" by simp_all
  note calculate_final_resume_score_fields [OF this, of cosine w1 w2]
  ultimately show ?thesis by auto
qed

lemma weighted_sum_range:
  assumes s: "0 \<le> s" "s \<le> 100" and t: "0 \<le> t" "t \<le> 100"
    and w1: "0 \<le> w1" "w1 \<le> 1" and w2: "0 \<le> w2" "w2 \<le> 1"
    and one: "fadd (Finite w1) (Finite w2) = Finite 1"
  shows "\<exists>q. fadd (fmul (Finite s) (Finite w1)) (fmul (Finite t) (Finite w2)) = Finite q \<and>
           0 \<le> q \<and> q \<le> 100 + 1 / 250"
proof -
  from w1 w2 have "0 \<le> w1 + w2" and "w1 + w2 \<le> 128" by simp_all
  then obtain r where r: "round_double (w1 + w2) = Finite r"
    "\<bar>r - (w1 + w2)\<bar> \<le> 1 / 50000000000000"
    using round_double_error_small by blast
  from r(1) one have "r = 1" by simp
  with r(2) have sum: "w1 + w2 \<le> 1 + 1 / 50000000000000" by linarith
  from s w1 have sw: "0 \<le> s * w1" "s * w1 \<le> 100 * w1" by (simp_all add: mult_right_mono)
  from t w2 have tw: "0 \<le> t * w2" "t * w2 \<le> 100 * w2" by (simp_all add: mult_right_mono)
  from sw w1 have "s * w1 \<le> 128" by linarith
  with sw(1) obtain a where a: "round_double (s * w1) = Finite a" "0 \<le> a"
    "\<bar>a - s * w1\<bar> \<le> 1 / 50000000000000"
    using round_double_error_small by blast
  from tw w2 have "t * w2 \<le> 128" by linarith
  with tw(1) obtain b where b: "round_double (t * w2) = Finite b" "0 \<le> b"
    "\<bar>b - t * w2\<bar> \<le> 1 / 50000000000000"
    using round_double_error_small by blast
  from a(3) b(3) sw(2) tw(2) sum have ab: "a + b \<le> 100 + 1 / 1000" by linarith
  then have "a + b \<le> 128" by simp
  moreover from a(2) b(2) have "0 \<le> a + b" by simp
  ultimately obtain q where q: "round_double (a + b) = Finite q" "0 \<le> q"
    "\<bar>q - (a + b)\<bar> \<le> 1 / 50000000000000"
    using round_double_error_small by blast
  from q(3) ab have "q \<le> 100 + 1 / 250" by linarith
  moreover from a(1) b(1) q(1)
  have "fadd (fmul (Finite s) (Finite w1)) (fmul (Finite t) (Finite w2)) = Finite q" by simp
  ultimately show ?thesis using q(2) by blast
qed

text \<open>
  Claim C3: when neither text is empty, the final score of the bundle is
  \<open>round(skill_score * skill_weight + text_score * text_weight, 2)\<close>, for the skill
  score and the similarity score of the same bundle and for the weights exactly as the
  caller gave them: no condition on the weights, none is checked and none is rescaled.
  The products, the sum and the rounding are those of doubles. When the sum is a Python
  float \<open>q\<close>, the final score is the double of \<open>k / 100\<close> for an integer \<open>k\<close> nearest to
  \<open>100 * q\<close>; when it is a \<^verbatim>\<open>numpy.float64\<close>, for an integer \<open>k\<close> nearest to the double
  product of the sum and 100.
\<close>

theorem final_score_formula:
  assumes "resume_text \<noteq> []" and "job_text \<noteq> []"
  shows "\<exists>bundle.
     calculate_final_resume_score cosine resume_text job_text skill_weight text_weight =
       Inr bundle \<and>
     Skill_Match_Score bundle =
       PyFloat (fst (score_resume_by_skills resume_text (extract_skills job_text))) \<and>
     score_resume_by_text_similarity cosine resume_text job_text =
       Inr (Text_Similarity_Score bundle) \<and>
     (let weighted = num_add (num_mul (Skill_Match_Score bundle) (PyFloat skill_weight))
                       (num_mul (Text_Similarity_Score bundle) (PyFloat text_weight))
      in Final_Resume_Score bundle = num_round2 weighted \<and>
         (\<forall>q. weighted = PyFloat (Finite q) \<longrightarrow>
            (\<exists>k::int. Final_Resume_Score bundle = PyFloat (round_double (of_int k / 100)) \<and>
               \<bar>of_int k - q * 100\<bar> \<le> 1 / 2)) \<and>
         (\<forall>x y. weighted = NpFloat64 x \<and> fmul x (Finite 100) = Finite y \<longrightarrow>
            (\<exists>k::int. Final_Resume_Score bundle = NpFloat64 (round_double (of_int k / 100)) \<and>
               \<bar>of_int k - y\<bar> \<le> 1 / 2)))"
proof -
  let ?s = "fst (score_resume_by_skills resume_text (extract_skills job_text))"
  from calculate_final_resume_score_fields [OF assms, of cosine skill_weight text_weight]
  obtain text_score where
    t0: "score_resume_by_text_similarity cosine resume_text job_text = Inr text_score"
    and b0: "calculate_final_resume_score cosine resume_text job_text skill_weight text_weight =
       Inr \<lparr>Skill_Match_Score = PyFloat ?s, Text_Similarity_Score = text_score,
            Final_Resume_Score =
              num_round2 (num_add (num_mul (PyFloat ?s) (PyFloat skill_weight))
                            (num_mul text_score (PyFloat text_weight))),
            Matched_Skills = snd (score_resume_by_skills resume_text (extract_skills job_text)),
            Job_Skills = extract_skills job_text,
            Resume_Skills = extract_skills resume_text\<rparr>"
    by blast
  define result where
    "result = \<lparr>Skill_Match_Score = PyFloat ?s, Text_Similarity_Score = text_score,
            Final_Resume_Score =
              num_round2 (num_add (num_mul (PyFloat ?s) (PyFloat skill_weight))
                            (num_mul text_score (PyFloat text_weight))),
            Matched_Skills = snd (score_resume_by_skills resume_text (extract_skills job_text)),
            Job_Skills = extract_skills job_text,
            Resume_Skills = extract_skills resume_text\<rparr>"
  from b0 have r: "calculate_final_resume_score cosine resume_text job_text
      skill_weight text_weight = Inr result"
    by (simp only: result_def)
  have s: "Skill_Match_Score result = PyFloat ?s" by (simp add: result_def)
  from t0 have t: "score_resume_by_text_similarity cosine resume_text job_text =
       Inr (Text_Similarity_Score result)" by (simp add: result_def)
  have f: "Final_Resume_Score result =
       num_round2 (num_add (num_mul (Skill_Match_Score result) (PyFloat skill_weight))
                     (num_mul (Text_Similarity_Score result) (PyFloat text_weight)))"
    by (simp add: result_def)
  define weighted where
    "weighted = num_add (num_mul (Skill_Match_Score result) (PyFloat skill_weight))
                  (num_mul (Text_Similarity_Score result) (PyFloat text_weight))"
  have py: "\<exists>k::int. num_round2 weighted = PyFloat (round_double (of_int k / 100)) \<and>
      \<bar>of_int k - q * 100\<bar> \<le> 1 / 2" if "weighted = PyFloat (Finite q)" for q
    using that round_half_even_near [of "q * 100"] by auto
  have np: "\<exists>k::int. num_round2 weighted = NpFloat64 (round_double (of_int k / 100)) \<and>
      \<bar>of_int k - y\<bar> \<le> 1 / 2"
    if "weighted = NpFloat64 x \<and> fmul x (Finite 100) = Finite y" for x y
    using that round_half_even_near [of y] by (auto simp: np_round2_def)
  from f py np have "Final_Resume_Score result = num_round2 weighted \<and>
      (\<forall>q. weighted = PyFloat (Finite q) \<longrightarrow>
         (\<exists>k::int. Final_Resume_Score result = PyFloat (round_double (of_int k / 100)) \<and>
            \<bar>of_int k - q * 100\<bar> \<le> 1 / 2)) \<and>
      (\<forall>x y. weighted = NpFloat64 x \<and> fmul x (Finite 100) = Finite y \<longrightarrow>
         (\<exists>k::int. Final_Resume_Score result = NpFloat64 (round_double (of_int k / 100)) \<and>
            \<bar>of_int k - y\<bar> \<le> 1 / 2))"
    by (simp add: weighted_def)
  with r s t show ?thesis unfolding Let_def weighted_def by blast
qed

theorem final_score_formula_witness:
  "''react git'' \<noteq> [] \<and> ''git git'' \<noteq> [] \<and>
   calculate_final_resume_score (\<lambda>a b. Inr (NpFloat64 (round_double (3677 / 10000))))
       ''react git'' ''git git'' (Finite (1 / 2)) (Finite (1 / 2)) =
     Inr \<lparr>Skill_Match_Score = PyFloat (Finite 100),
          Text_Similarity_Score = NpFloat64 (round_double (3677 / 100)),
          Final_Resume_Score = NpFloat64 (round_double (6839 / 100)),
          Matched_Skills = {''git''}, Job_Skills = [''git''],
          Resume_Skills = [''git'', ''react'']\<rparr> \<and>
   NpFloat64 (round_double (6839 / 100)) =
     num_round2 (num_add (num_mul (PyFloat (Finite 100)) (PyFloat (Finite (1 / 2))))
                   (num_mul (NpFloat64 (round_double (3677 / 100))) (PyFloat (Finite (1 / 2))))) \<and>
   calculate_final_resume_score (\<lambda>a b. Inr (PyFloat (Finite 1)))
       ''react git'' ''git git'' (Finite 1) (Finite 1) =
     Inr \<lparr>Skill_Match_Score = PyFloat (Finite 100),
          Text_Similarity_Score = PyFloat (Finite 100),
          Final_Resume_Score = PyFloat (Finite 200),
          Matched_Skills = {''git''}, Job_Skills = [''git''],
          Resume_Skills = [''git'', ''react'']\<rparr>"
proof -
  have ne: "''react git'' \<noteq> []" "''git git'' \<noteq> []" by simp_all
  have val: "calculate_final_resume_score (\<lambda>a b. Inr (NpFloat64 (round_double (3677 / 10000))))
       ''react git'' ''git git'' (Finite (1 / 2)) (Finite (1 / 2)) =
     Inr \<lparr>Skill_Match_Score = PyFloat (Finite 100),
          Text_Similarity_Score = NpFloat64 (round_double (3677 / 100)),
          Final_Resume_Score = NpFloat64 (round_double (6839 / 100)),
          Matched_Skills = {''git''}, Job_Skills = [''git''],
          Resume_Skills = [''git'', ''react'']\<rparr>"
    by code_simp
  have val2: "calculate_final_resume_score (\<lambda>a b. Inr (PyFloat (Finite 1)))
       ''react git'' ''git git'' (Finite 1) (Finite 1) =
     Inr \<lparr>Skill_Match_Score = PyFloat (Finite 100),
          Text_Similarity_Score = PyFloat (Finite 100),
          Final_Resume_Score = PyFloat (Finite 200),
          Matched_Skills = {''git''}, Job_Skills = [''git''],
          Resume_Skills = [''git'', ''react'']\<rparr>"
    by code_simp
  from final_score_formula [OF ne,
      of "\<lambda>a b. Inr (NpFloat64 (round_double (3677 / 10000)))" "Finite (1 / 2)" "Finite (1 / 2)"]
  obtain result where
    b: "calculate_final_resume_score (\<lambda>a b. Inr (NpFloat64 (round_double (3677 / 10000))))
       ''react git'' ''git git'' (Finite (1 / 2)) (Finite (1 / 2)) = Inr result"
    and f: "Final_Resume_Score result =
       num_round2 (num_add (num_mul (Skill_Match_Score result) (PyFloat (Finite (1 / 2))))
                     (num_mul (Text_Similarity_Score result) (PyFloat (Finite (1 / 2)))))"
    unfolding Let_def by blast
  from b val have "Skill_Match_Score result = PyFloat (Finite 100)"
    and "Text_Similarity_Score result = NpFloat64 (round_double (3677 / 100))"
    and "Final_Resume_Score result = NpFloat64 (round_double (6839 / 100))" by auto
  with f have "NpFloat64 (round_double (6839 / 100)) =
     num_round2 (num_add (num_mul (PyFloat (Finite 100)) (PyFloat (Finite (1 / 2))))
                   (num_mul (NpFloat64 (round_double (3677 / 100))) (PyFloat (Finite (1 / 2)))))"
    by (simp only:)
  with ne val val2 show ?thesis by blast
qed

text \<open>
  Claim C4: when each weight lies in \<open>[0, 1]\<close> and their float sum is exactly 1.0, then
  for every pair of texts the skill score, the similarity score and the final score of
  the bundle lie in \<open>[0, 100]\<close> and are rounded to 2 decimals: each is the double of a
  hundredth \<open>k / 100\<close>. The library is assumed to return a cosine between 0 and
  \<open>1 + 1 / 10 ^ 9\<close>: a cosine of vectors without negative entries, with room for the
  rounding errors of its computation (identical texts give 1.0000000000000002).
\<close>

theorem scores_within_bounds:
  assumes "skill_weight = Finite w1" and "0 \<le> w1" and "w1 \<le> 1"
    and "text_weight = Finite w2" and "0 \<le> w2" and "w2 \<le> 1"
    and "fadd skill_weight text_weight = Finite 1"
    and "\<And>a b v. cosine a b = Inr v \<Longrightarrow>
      \<exists>c. num_value v = Finite c \<and> 0 \<le> c \<and> c \<le> 1 + 1 / 1000000000"
  shows "\<exists>bundle.
     calculate_final_resume_score cosine resume_text job_text skill_weight text_weight =
       Inr bundle \<and>
     (\<exists>r k. num_value (Skill_Match_Score bundle) = Finite r \<and> 0 \<le> r \<and> r \<le> 100 \<and>
        Finite r = round_double (of_int k / 100)) \<and>
     (\<exists>r k. num_value (Text_Similarity_Score bundle) = Finite r \<and> 0 \<le> r \<and> r \<le> 100 \<and>
        Finite r = round_double (of_int k / 100)) \<and>
     (\<exists>r k. num_value (Final_Resume_Score bundle) = Finite r \<and> 0 \<le> r \<and> r \<le> 100 \<and>
        Finite r = round_double (of_int k / 100))"
proof (cases "resume_text = [] \<or> job_text = []")
  case True
  then have "calculate_final_resume_score cosine resume_text job_text skill_weight text_weight =
      Inr \<lparr>Skill_Match_Score = PyFloat (Finite 0),
           Text_Similarity_Score = PyFloat (Finite 0),
           Final_Resume_Score = PyFloat (Finite 0),
           Matched_Skills = {}, Job_Skills = [], Resume_Skills = []\<rparr>"
    by (simp add: calculate_final_resume_score_def)
  with zero_score_range show ?thesis by simp
next
  case False
  then have ne: "resume_text \<noteq> []" "job_text \<noteq> []" by simp_all
  let ?s = "fst (score_resume_by_skills resume_text (extract_skills job_text))"
  from calculate_final_resume_score_fields [OF ne, of cosine skill_weight text_weight]
  obtain t where t: "score_resume_by_text_similarity cosine resume_text job_text = Inr t"
    and b: "calculate_final_resume_score cosine resume_text job_text skill_weight text_weight =
       Inr \<lparr>Skill_Match_Score = PyFloat ?s, Text_Similarity_Score = t,
            Final_Resume_Score =
              num_round2 (num_add (num_mul (PyFloat ?s) (PyFloat skill_weight))
                            (num_mul t (PyFloat text_weight))),
            Matched_Skills = snd (score_resume_by_skills resume_text (extract_skills job_text)),
            Job_Skills = extract_skills job_text,
            Resume_Skills = extract_skills resume_text\<rparr>"
    by blast
  from skill_score_range [of resume_text "extract_skills job_text"]
  obtain sr sk where s: "?s = Finite sr" "0 \<le> sr" "sr \<le> 100"
    "Finite sr = round_double (of_int sk / 100)" by blast
  have "\<exists>r k. num_value t = Finite r \<and> 0 \<le> r \<and> r \<le> 100 \<and>
      Finite r = round_double (of_int k / 100)"
    using assms(8) t by (rule text_score_range)
  then obtain tr tk where tr: "num_value t = Finite tr" "0 \<le> tr" "tr \<le> 100"
    "Finite tr = round_double (of_int tk / 100)" by blast
  from assms(1,4,7) have one: "fadd (Finite w1) (Finite w2) = Finite 1" by simp
  from weighted_sum_range [OF s(2,3) tr(2,3) assms(2,3,5,6) one]
  obtain q where q: "fadd (fmul (Finite sr) (Finite w1)) (fmul (Finite tr) (Finite w2)) = Finite q"
    "0 \<le> q" "q \<le> 100 + 1 / 250" by blast
  let ?weighted = "num_add (num_mul (PyFloat ?s) (PyFloat skill_weight))
                     (num_mul t (PyFloat text_weight))"
  from q(1) s(1) tr(1) assms(1,4) have "num_value ?weighted = Finite q"
    by (simp add: num_value_add num_value_mul)
  then have f: "\<exists>r k. num_value (num_round2 ?weighted) = Finite r \<and> 0 \<le> r \<and> r \<le> 100 \<and>
      Finite r = round_double (of_int k / 100)"
    using q(2,3) by (rule num_round2_range)
  from s have "num_value (PyFloat ?s) = Finite sr \<and> 0 \<le> sr \<and> sr \<le> 100 \<and>
      Finite sr = round_double (of_int sk / 100)" by (simp only: num_value.simps simp_thms)
  then have s': "\<exists>r k. num_value (PyFloat ?s) = Finite r \<and> 0 \<le> r \<and> r \<le> 100 \<and>
      Finite r = round_double (of_int k / 100)" by blast
  from tr have t': "\<exists>r k. num_value t = Finite r \<and> 0 \<le> r \<and> r \<le> 100 \<and>
      Finite r = round_double (of_int k / 100)" by blast
  from b s' t' f show ?thesis by simp
qed

theorem scores_within_bounds_witness:
  "(0::rat) \<le> 3152519739159347 / 4503599627370496 \<and>
   (3152519739159347 / 4503599627370496 :: rat) \<le> 1 \<and>
   (0::rat) \<le> 5404319552844595 / 18014398509481984 \<and>
   (5404319552844595 / 18014398509481984 :: rat) \<le> 1 \<and>
   round_double (7 / 10) = Finite (3152519739159347 / 4503599627370496) \<and>
   round_double (3 / 10) = Finite (5404319552844595 / 18014398509481984) \<and>
   fadd (round_double (7 / 10)) (round_double (3 / 10)) = Finite 1 \<and>
   (\<exists>bundle.
      calculate_final_resume_score
          (\<lambda>a b. Inr (NpFloat64 (Finite (4503599627370497 / 4503599627370496))))
          ''sql'' ''sql r'' (round_double (7 / 10)) (round_double (3 / 10)) = Inr bundle \<and>
      Skill_Match_Score bundle = PyFloat (Finite 50) \<and>
      Text_Similarity_Score bundle = NpFloat64 (Finite 100) \<and>
      Final_Resume_Score bundle = NpFloat64 (Finite 65) \<and>
      (\<exists>r k. num_value (Final_Resume_Score bundle) = Finite r \<and> 0 \<le> r \<and> r \<le> 100 \<and>
         Finite r = round_double (of_int k / 100)))"
proof -
  let ?cosine = "\<lambda>a b :: string.
    Inr (NpFloat64 (Finite (4503599627370497 / 4503599627370496))) :: py_exception + pynum"
  have w: "(0::rat) \<le> 3152519739159347 / 4503599627370496"
    "(3152519739159347 / 4503599627370496 :: rat) \<le> 1"
    "(0::rat) \<le> 5404319552844595 / 18014398509481984"
    "(5404319552844595 / 18014398509481984 :: rat) \<le> 1" by simp_all
  have w1: "round_double (7 / 10) = Finite (3152519739159347 / 4503599627370496)" by code_simp
  have w2: "round_double (3 / 10) = Finite (5404319552844595 / 18014398509481984)" by code_simp
  have one: "fadd (round_double (7 / 10)) (round_double (3 / 10)) = Finite 1" by code_simp
  have cos: "\<exists>c. num_value v = Finite c \<and> 0 \<le> c \<and> c \<le> 1 + 1 / 1000000000"
    if "?cosine a b = Inr v" for a b v
  proof -
    from that have "num_value v = Finite (4503599627370497 / 4503599627370496)" by auto
    moreover have "(0::rat) \<le> 4503599627370497 / 4503599627370496"
      and "(4503599627370497 / 4503599627370496 :: rat) \<le> 1 + 1 / 1000000000" by simp_all
    ultimately show ?thesis by blast
  qed
  have val: "calculate_final_resume_score ?cosine ''sql'' ''sql r''
      (round_double (7 / 10)) (round_double (3 / 10)) =
     Inr \<lparr>Skill_Match_Score = PyFloat (Finite 50),
          Text_Similarity_Score = NpFloat64 (Finite 100),
          Final_Resume_Score = NpFloat64 (Finite 65),
          Matched_Skills = {''sql''}, Job_Skills = [''r'', ''sql''],
          Resume_Skills = [''sql'']\<rparr>"
    by code_simp
  from scores_within_bounds
    [where cosine = ?cosine and resume_text = "''sql''" and job_text = "''sql r''",
      OF w1 w(1,2) w2 w(3,4) one cos]
  obtain result where
    b: "calculate_final_resume_score ?cosine ''sql'' ''sql r''
      (round_double (7 / 10)) (round_double (3 / 10)) = Inr result"
    and r: "\<exists>r k. num_value (Final_Resume_Score result) = Finite r \<and> 0 \<le> r \<and> r \<le> 100 \<and>
         Finite r = round_double (of_int k / 100)"
    by blast
  from b val have "Skill_Match_Score result = PyFloat (Finite 50)"
    and "Text_Similarity_Score result = NpFloat64 (Finite 100)"
    and "Final_Resume_Score result = NpFloat64 (Finite 65)" by auto
  with w w1 w2 one b r show ?thesis by blast
qed

end
